theory Spec2Isabelle
  imports Complex_Main
begin

section \<open>JavaScript numbers\<close>

text \<open>
  A JavaScript \<open>number\<close> is \<open>NaN\<close>, one of the two infinities, or a finite value.
  Finite values carry their exact rational value; the rounding of IEEE doubles is not
  part of the model, and neither is the sign of zero. The finite values that the theorems
  below compute are integers far below \<open>2^53\<close> and decimal literals with an exact binary
  representation, where the exact value and the double coincide; the quotients of the
  encoders (\<open>ms / 3600000\<close>, \<open>ms / 10\<close> and the like) are not exact, but for integers of
  that size \<open>Math.floor\<close> and \<open>Math.round\<close> take the double and the exact quotient to the
  same integer.
\<close>

datatype jsnum = NaN | PosInf | NegInf | Fin rat

definition js_sgn :: "jsnum \<Rightarrow> int" where
  "js_sgn x = (case x of NaN \<Rightarrow> 0 | PosInf \<Rightarrow> 1 | NegInf \<Rightarrow> -1
     | Fin a \<Rightarrow> (if a = 0 then 0 else if 0 < a then 1 else -1))"

definition js_of_sgn :: "int \<Rightarrow> jsnum" where
  "js_of_sgn s = (if s = 0 then NaN else if 0 < s then PosInf else NegInf)"

text \<open>The operator \<open>+\<close> on numbers.\<close>

definition js_add :: "jsnum \<Rightarrow> jsnum \<Rightarrow> jsnum" where
  "js_add x y = (case (x, y) of
       (Fin a, Fin b) \<Rightarrow> Fin (a + b)
     | (NaN, _) \<Rightarrow> NaN
     | (_, NaN) \<Rightarrow> NaN
     | (PosInf, NegInf) \<Rightarrow> NaN
     | (NegInf, PosInf) \<Rightarrow> NaN
     | (PosInf, _) \<Rightarrow> PosInf
     | (NegInf, _) \<Rightarrow> NegInf
     | (_, PosInf) \<Rightarrow> PosInf
     | (_, NegInf) \<Rightarrow> NegInf)"

definition js_neg :: "jsnum \<Rightarrow> jsnum" where
  "js_neg x = (case x of NaN \<Rightarrow> NaN | PosInf \<Rightarrow> NegInf | NegInf \<Rightarrow> PosInf | Fin a \<Rightarrow> Fin (- a))"

text \<open>The operator \<open>-\<close> on numbers.\<close>

definition js_sub :: "jsnum \<Rightarrow> jsnum \<Rightarrow> jsnum" where
  "js_sub x y = js_add x (js_neg y)"

text \<open>The operator \<open>*\<close> on numbers: an infinity times zero is \<open>NaN\<close>.\<close>

definition js_mul :: "jsnum \<Rightarrow> jsnum \<Rightarrow> jsnum" where
  "js_mul x y = (case (x, y) of
       (Fin a, Fin b) \<Rightarrow> Fin (a * b)
     | (NaN, _) \<Rightarrow> NaN
     | (_, NaN) \<Rightarrow> NaN
     | _ \<Rightarrow> js_of_sgn (js_sgn x * js_sgn y))"

text \<open>
  The operator \<open>/\<close> on numbers. A zero divisor is read as \<open>+0\<close>; no division of the
  modelled code has a zero divisor.
\<close>

definition js_div :: "jsnum \<Rightarrow> jsnum \<Rightarrow> jsnum" where
  "js_div x y = (case (x, y) of
       (Fin a, Fin b) \<Rightarrow> (if b = 0 then js_of_sgn (js_sgn x) else Fin (a / b))
     | (NaN, _) \<Rightarrow> NaN
     | (_, NaN) \<Rightarrow> NaN
     | (Fin a, _) \<Rightarrow> Fin 0
     | (_, Fin b) \<Rightarrow> (if b = 0 then x else js_of_sgn (js_sgn x * js_sgn y))
     | _ \<Rightarrow> NaN)"

text \<open>
  The operator \<open>%\<close> on numbers: the remainder has the sign of the dividend
  (the quotient is truncated towards zero).
\<close>

definition trunc_rat :: "rat \<Rightarrow> int" where
  "trunc_rat q = (if 0 \<le> q then \<lfloor>q\<rfloor> else \<lceil>q\<rceil>)"

definition js_rem :: "jsnum \<Rightarrow> jsnum \<Rightarrow> jsnum" where
  "js_rem x y = (case (x, y) of
       (Fin a, Fin b) \<Rightarrow> (if b = 0 then NaN else Fin (a - b * of_int (trunc_rat (a / b))))
     | (Fin a, PosInf) \<Rightarrow> Fin a
     | (Fin a, NegInf) \<Rightarrow> Fin a
     | _ \<Rightarrow> NaN)"

text \<open>\<open>Math.floor\<close>, and \<open>Math.round\<close>, which rounds a tie towards \<open>+\<infinity>\<close>.\<close>

definition Math_floor :: "jsnum \<Rightarrow> jsnum" where
  "Math_floor x = (case x of Fin a \<Rightarrow> Fin (of_int \<lfloor>a\<rfloor>) | _ \<Rightarrow> x)"

definition Math_round :: "jsnum \<Rightarrow> jsnum" where
  "Math_round x = (case x of Fin a \<Rightarrow> Fin (of_int \<lfloor>a + 1 / 2\<rfloor>) | _ \<Rightarrow> x)"

text \<open>\<open>Math.max\<close> of two numbers: \<open>NaN\<close> when either is.\<close>

definition Math_max :: "jsnum \<Rightarrow> jsnum \<Rightarrow> jsnum" where
  "Math_max x y = (case (x, y) of
       (NaN, _) \<Rightarrow> NaN
     | (_, NaN) \<Rightarrow> NaN
     | (PosInf, _) \<Rightarrow> PosInf
     | (_, PosInf) \<Rightarrow> PosInf
     | (NegInf, _) \<Rightarrow> y
     | (_, NegInf) \<Rightarrow> x
     | (Fin a, Fin b) \<Rightarrow> Fin (max a b))"

text \<open>Truthiness of a number: \<open>0\<close> and \<open>NaN\<close> are falsy.\<close>

definition js_truthy :: "jsnum \<Rightarrow> bool" where
  "js_truthy x = (x \<noteq> NaN \<and> x \<noteq> Fin 0)"

section \<open>JavaScript strings\<close>

text \<open>
  A string is a list of 8-bit characters, read as the code units \<open>U+0000\<close> to
  \<open>U+00FF\<close>. White space, as \<open>trim\<close>, \<open>parseFloat\<close> and the class \<open>\s\<close> see it, is
  TAB, LF, VT, FF, CR, SP and NBSP in that range; the line terminators are LF and CR.
\<close>

definition is_ws :: "char \<Rightarrow> bool" where
  "is_ws c = (c \<in> set [CHR 0x09, CHR 0x0A, CHR 0x0B, CHR 0x0C, CHR 0x0D, CHR 0x20, CHR 0xA0])"

definition is_line_term :: "char \<Rightarrow> bool" where
  "is_line_term c = (c = CHR 0x0A \<or> c = CHR 0x0D)"

definition is_digit :: "char \<Rightarrow> bool" where
  "is_digit c = (c \<in> set ''0123456789'')"

definition digit_val :: "char \<Rightarrow> nat" where
  "digit_val c = of_char c - 48"

definition digit_char :: "nat \<Rightarrow> char" where
  "digit_char n = ''0123456789'' ! n"

definition digits_val :: "string \<Rightarrow> nat" where
  "digits_val ds = foldl (\<lambda>acc c. 10 * acc + digit_val c) 0 ds"

definition trimStart :: "string \<Rightarrow> string" where
  "trimStart s = dropWhile is_ws s"

definition trim :: "string \<Rightarrow> string" where
  "trim s = rev (dropWhile is_ws (rev (dropWhile is_ws s)))"

definition startsWith :: "string \<Rightarrow> string \<Rightarrow> bool" where
  "startsWith s p = (take (length p) s = p)"

definition endsWith :: "string \<Rightarrow> string \<Rightarrow> bool" where
  "endsWith s p = (length p \<le> length s \<and> drop (length s - length p) s = p)"

fun str_includes :: "string \<Rightarrow> string \<Rightarrow> bool" where
  "str_includes [] p = (p = [])"
| "str_includes (c # cs) p = (startsWith (c # cs) p \<or> str_includes cs p)"

text \<open>\<open>s.slice(0, -k)\<close>: the string without its last \<open>k\<close> characters.\<close>

definition slice_end :: "string \<Rightarrow> nat \<Rightarrow> string" where
  "slice_end s k = take (length s - k) s"

definition padStart :: "nat \<Rightarrow> char \<Rightarrow> string \<Rightarrow> string" where
  "padStart n c s = replicate (n - length s) c @ s"

text \<open>
  \<open>Number.prototype.toString\<close>. It is applied here to integer values only (every argument
  is the result of \<open>Math.floor\<close>, of a date field, or of \<open>%\<close> on a rounded value), and it
  is the plain decimal numeral for magnitudes below \<open>10^21\<close>, where JavaScript changes to
  the exponent notation.
\<close>

function nat_toString :: "nat \<Rightarrow> string" where
  "nat_toString n = (if n < 10 then [digit_char n]
     else nat_toString (n div 10) @ [digit_char (n mod 10)])"
  by pat_completeness auto
termination
  by (relation "measure id") auto

definition int_toString :: "int \<Rightarrow> string" where
  "int_toString i = (if i < 0 then CHR ''-'' # nat_toString (nat (- i)) else nat_toString (nat i))"

definition num_toString :: "jsnum \<Rightarrow> string" where
  "num_toString x = (case x of NaN \<Rightarrow> ''NaN'' | PosInf \<Rightarrow> ''Infinity''
     | NegInf \<Rightarrow> ''-Infinity'' | Fin a \<Rightarrow> int_toString \<lfloor>a\<rfloor>)"

text \<open>
  \<open>parseInt(s, 10)\<close>: leading white space, an optional sign, then the longest run of
  decimal digits; \<open>NaN\<close> when there is none.
\<close>

definition strip_sign :: "string \<Rightarrow> bool \<times> string" where
  "strip_sign s = (case s of [] \<Rightarrow> (False, s)
     | c # r \<Rightarrow> if c = CHR ''-'' then (True, r) else if c = CHR ''+'' then (False, r) else (False, s))"

definition parseInt10 :: "string \<Rightarrow> jsnum" where
  "parseInt10 s = (let (neg, u) = strip_sign (trimStart s); ds = takeWhile is_digit u in
     if ds = [] then NaN
     else Fin ((if neg then - 1 else 1) * of_nat (digits_val ds)))"

text \<open>
  \<open>parseFloat(s)\<close>: leading white space, then the longest prefix that is a
  \<open>StrDecimalLiteral\<close>: an optional sign, then \<open>Infinity\<close> or decimal digits with an
  optional fraction and an optional exponent (the integer part or the fraction may be
  empty, not both); \<open>NaN\<close> when there is no such prefix.
\<close>

definition exponent_part :: "string \<Rightarrow> int" where
  "exponent_part s = (case s of [] \<Rightarrow> 0
     | c # r \<Rightarrow> if c = CHR ''e'' \<or> c = CHR ''E''
         then (let (neg, u) = strip_sign r; ds = takeWhile is_digit u in
               if ds = [] then 0 else (if neg then - 1 else 1) * int (digits_val ds))
         else 0)"

definition parseFloat :: "string \<Rightarrow> jsnum" where
  "parseFloat s = (let (neg, u) = strip_sign (trimStart s) in
     if startsWith u ''Infinity'' then (if neg then NegInf else PosInf)
     else let ip = takeWhile is_digit u; r1 = dropWhile is_digit u;
              dot = (r1 \<noteq> [] \<and> hd r1 = CHR ''.'');
              fp = (if dot then takeWhile is_digit (tl r1) else []);
              r2 = (if dot then dropWhile is_digit (tl r1) else r1)
          in if ip = [] \<and> fp = [] then NaN
             else Fin ((if neg then - 1 else 1)
                  * (of_nat (digits_val ip) + of_nat (digits_val fp) / 10 ^ length fp)
                  * 10 powi exponent_part r2))"

section \<open>Regular expressions\<close>

text \<open>
  The regular expressions of the source, as data, and a backtracking matcher that
  returns the possible matches in the order in which the JavaScript engine tries them:
  a greedy quantifier tries the longest repetition first, an optional group is tried
  before it is skipped. The first element of the list is the match that \<open>exec\<close> reports.
  Quantifiers occur in the source on character classes only.
\<close>

datatype cclass =
    Digit            \<comment> \<open>\<open>\d\<close>\<close>
  | Dot              \<comment> \<open>\<open>.\<close>: any character but a line terminator\<close>
  | Space            \<comment> \<open>\<open>\s\<close>\<close>
  | OneOf string     \<comment> \<open>\<open>[...]\<close>\<close>
  | NoneOf string    \<comment> \<open>\<open>[^...]\<close>\<close>

fun in_class :: "cclass \<Rightarrow> char \<Rightarrow> bool" where
  "in_class Digit c = is_digit c"
| "in_class Dot c = (\<not> is_line_term c)"
| "in_class Space c = is_ws c"
| "in_class (OneOf cs) c = (c \<in> set cs)"
| "in_class (NoneOf cs) c = (c \<notin> set cs)"

datatype re =
    Eps
  | Lit char                        \<comment> \<open>a literal character\<close>
  | Rep cclass nat "nat option"     \<comment> \<open>\<open>c{lo,hi}\<close>, greedy; no upper bound when \<open>None\<close>\<close>
  | RepLazy cclass nat "nat option" \<comment> \<open>\<open>c{lo,hi}?\<close>, lazy\<close>
  | Seq re re
  | Grp nat re                      \<comment> \<open>the capturing group of that number\<close>
  | Opt re                          \<comment> \<open>\<open>(?:r)?\<close>, greedy\<close>
  | Eol                             \<comment> \<open>\<open>$\<close> without the flag \<open>m\<close>: the end of the input\<close>

fun cat :: "re list \<Rightarrow> re" where
  "cat [] = Eps"
| "cat (r # rs) = Seq r (cat rs)"

type_synonym caps = "(nat \<times> string) list"

definition rep_counts :: "cclass \<Rightarrow> nat \<Rightarrow> nat option \<Rightarrow> string \<Rightarrow> nat list" where
  "rep_counts cl lo hi s =
     (let k = length (takeWhile (in_class cl) s);
          m = (case hi of None \<Rightarrow> k | Some h \<Rightarrow> min h k)
      in [lo ..< Suc m])"

primrec rmatch :: "re \<Rightarrow> string \<times> caps \<Rightarrow> (string \<times> caps) list" where
  "rmatch Eps = (\<lambda>st. [st])"
| "rmatch (Lit c) = (\<lambda>st. case fst st of [] \<Rightarrow> []
     | x # xs \<Rightarrow> if x = c then [(xs, snd st)] else [])"
| "rmatch (Rep cl lo hi) = (\<lambda>st. map (\<lambda>i. (drop i (fst st), snd st)) (rev (rep_counts cl lo hi (fst st))))"
| "rmatch (RepLazy cl lo hi) = (\<lambda>st. map (\<lambda>i. (drop i (fst st), snd st)) (rep_counts cl lo hi (fst st)))"
| "rmatch (Seq a b) = (\<lambda>st. concat (map (rmatch b) (rmatch a st)))"
| "rmatch (Grp n a) = (\<lambda>st. map (\<lambda>st'. (fst st', (n, take (length (fst st) - length (fst st')) (fst st)) # snd st'))
     (rmatch a st))"
| "rmatch (Opt a) = (\<lambda>st. rmatch a st @ [st])"
| "rmatch Eol = (\<lambda>st. if fst st = [] then [st] else [])"

text \<open>A match that starts at the beginning of the input, as a pattern with \<open>^\<close> requires.\<close>

definition re_match :: "re \<Rightarrow> string \<Rightarrow> (string \<times> caps) option" where
  "re_match r s = (case rmatch r (s, []) of [] \<Rightarrow> None | st # _ \<Rightarrow> Some st)"

text \<open>
  The leftmost match of a pattern without \<open>^\<close>: its index, the input after it and the
  captures.
\<close>

fun re_search_from :: "re \<Rightarrow> nat \<Rightarrow> string \<Rightarrow> (nat \<times> string \<times> caps) option" where
  "re_search_from r i [] = (case re_match r [] of None \<Rightarrow> None | Some (rest, cs) \<Rightarrow> Some (i, rest, cs))"
| "re_search_from r i (c # s) = (case re_match r (c # s) of
       Some (rest, cs) \<Rightarrow> Some (i, rest, cs)
     | None \<Rightarrow> re_search_from r (Suc i) s)"

text \<open>A capture group of a match: \<open>None\<close> is \<open>undefined\<close>.\<close>

definition grp :: "caps \<Rightarrow> nat \<Rightarrow> string option" where
  "grp cs n = map_of cs n"

text \<open>A capture group where the code passes it on as a string: \<open>String(undefined)\<close> otherwise.\<close>

definition grp_str :: "caps \<Rightarrow> nat \<Rightarrow> string" where
  "grp_str cs n = (case map_of cs n of Some s \<Rightarrow> s | None \<Rightarrow> ''undefined'')"

section \<open>The time codec\<close>

subsection \<open>Encoders\<close>

text \<open>\<open>msToSrt\<close>, the version that decomposes by division (the later one of the two).\<close>

definition msToSrt :: "jsnum \<Rightarrow> string" where
  "msToSrt ms =
     (let roundedMs = Math_round ms;
          h = padStart 2 CHR ''0'' (num_toString (Math_floor (js_div roundedMs (Fin 3600000))));
          m = padStart 2 CHR ''0'' (num_toString (Math_floor (js_div (js_rem roundedMs (Fin 3600000)) (Fin 60000))));
          s = padStart 2 CHR ''0'' (num_toString (Math_floor (js_div (js_rem roundedMs (Fin 60000)) (Fin 1000))));
          mis = padStart 3 CHR ''0'' (num_toString (js_rem roundedMs (Fin 1000)))
      in h @ '':'' @ m @ '':'' @ s @ '','' @ mis)"

definition msToLrc :: "jsnum \<Rightarrow> string" where
  "msToLrc ms =
     (let roundedMs = js_mul (Math_round (js_div ms (Fin 10))) (Fin 10);
          m = padStart 2 CHR ''0'' (num_toString (Math_floor (js_div roundedMs (Fin 60000))));
          s = padStart 2 CHR ''0'' (num_toString (Math_floor (js_div (js_rem roundedMs (Fin 60000)) (Fin 1000))));
          centis = padStart 2 CHR ''0'' (num_toString (Math_floor (js_div (js_rem roundedMs (Fin 1000)) (Fin 10))))
      in m @ '':'' @ s @ ''.'' @ centis)"

definition msToVtt :: "jsnum \<Rightarrow> string" where
  "msToVtt ms =
     (let roundedMs = Math_round ms;
          h = padStart 2 CHR ''0'' (num_toString (Math_floor (js_div roundedMs (Fin 3600000))));
          m = padStart 2 CHR ''0'' (num_toString (Math_floor (js_div (js_rem roundedMs (Fin 3600000)) (Fin 60000))));
          s = padStart 2 CHR ''0'' (num_toString (Math_floor (js_div (js_rem roundedMs (Fin 60000)) (Fin 1000))));
          mis = padStart 3 CHR ''0'' (num_toString (js_rem roundedMs (Fin 1000)))
      in h @ '':'' @ m @ '':'' @ s @ ''.'' @ mis)"

subsection \<open>The earlier encoder, on a date\<close>

text \<open>
  \<open>new Date(ms)\<close> holds the time value \<open>TimeClip(ms)\<close>: \<open>NaN\<close> for a number that is not
  finite or beyond \<open>8.64e15\<close> in magnitude, and the number truncated to an integer
  otherwise. The UTC fields of a time value \<open>t\<close> are \<open>floor(t / 60000) mod 60\<close>,
  \<open>floor(t / 1000) mod 60\<close> and \<open>t mod 1000\<close>, with the non-negative modulo.
\<close>

definition new_Date :: "jsnum \<Rightarrow> jsnum" where
  "new_Date ms = (case ms of
       Fin a \<Rightarrow> (if 8640000000000000 < \<bar>a\<bar> then NaN else Fin (of_int (trunc_rat a)))
     | _ \<Rightarrow> NaN)"

definition getUTCMinutes :: "jsnum \<Rightarrow> jsnum" where
  "getUTCMinutes tv = (case tv of Fin t \<Rightarrow> Fin (of_int (\<lfloor>t / 60000\<rfloor> mod 60)) | _ \<Rightarrow> NaN)"

definition getUTCSeconds :: "jsnum \<Rightarrow> jsnum" where
  "getUTCSeconds tv = (case tv of Fin t \<Rightarrow> Fin (of_int (\<lfloor>t / 1000\<rfloor> mod 60)) | _ \<Rightarrow> NaN)"

definition getUTCMilliseconds :: "jsnum \<Rightarrow> jsnum" where
  "getUTCMilliseconds tv = (case tv of Fin t \<Rightarrow> Fin (of_int (\<lfloor>t\<rfloor> mod 1000)) | _ \<Rightarrow> NaN)"

definition msToSrt_date :: "jsnum \<Rightarrow> string" where
  "msToSrt_date ms =
     (let date = new_Date ms;
          h = padStart 2 CHR ''0'' (num_toString (Math_floor (js_div ms (Fin 3600000))));
          m = padStart 2 CHR ''0'' (num_toString (getUTCMinutes date));
          s = padStart 2 CHR ''0'' (num_toString (getUTCSeconds date));
          mis = padStart 3 CHR ''0'' (num_toString (getUTCMilliseconds date))
      in h @ '':'' @ m @ '':'' @ s @ '','' @ mis)"

subsection \<open>The decoder\<close>

text \<open>\<open>/^(\d{1,2}):(\d{2})(?:\.(\d{1,3}))?$/\<close>\<close>

definition lrcRe :: re where
  "lrcRe = cat [Grp 1 (Rep Digit 1 (Some 2)), Lit CHR '':'', Grp 2 (Rep Digit 2 (Some 2)),
     Opt (cat [Lit CHR ''.'', Grp 3 (Rep Digit 1 (Some 3))]), Eol]"

text \<open>\<open>/^(?:(\d{1,2}):)?(\d{1,2}):(\d{1,2})[.,](\d{1,3})$/\<close>\<close>

definition fullRe :: re where
  "fullRe = cat [Opt (cat [Grp 1 (Rep Digit 1 (Some 2)), Lit CHR '':'']),
     Grp 2 (Rep Digit 1 (Some 2)), Lit CHR '':'', Grp 3 (Rep Digit 1 (Some 2)),
     Rep (OneOf ''.,'') 1 (Some 1), Grp 4 (Rep Digit 1 (Some 3)), Eol]"

text \<open>\<open>/^\d+(\.\d+)?$/\<close>\<close>

definition numRe :: re where
  "numRe = cat [Rep Digit 1 None, Opt (Grp 1 (cat [Lit CHR ''.'', Rep Digit 1 None])), Eol]"

definition timeToMs :: "string \<Rightarrow> jsnum" where
  "timeToMs timeStr =
     (if timeStr = [] then Fin 0
      else let cleanStr = trim timeStr in
        if endsWith cleanStr ''ms'' then parseFloat (slice_end cleanStr 2)
        else if endsWith cleanStr ''s'' then js_mul (parseFloat (slice_end cleanStr 1)) (Fin 1000)
        else case re_match lrcRe cleanStr of
          Some (_, lrcMatch) \<Rightarrow>
            (let m = parseInt10 (grp_str lrcMatch 1);
                 s = parseInt10 (grp_str lrcMatch 2);
                 msStr = (case grp lrcMatch 3 of None \<Rightarrow> ''0'' | Some g \<Rightarrow> if g = [] then ''0'' else g);
                 ms = (if length msStr = 3 then parseInt10 msStr
                       else if length msStr = 2 then js_mul (parseInt10 msStr) (Fin 10)
                       else if length msStr = 1 then js_mul (parseInt10 msStr) (Fin 100)
                       else parseInt10 msStr)
             in js_add (js_add (js_mul m (Fin 60000)) (js_mul s (Fin 1000))) ms)
        | None \<Rightarrow>
          (case re_match fullRe cleanStr of
            Some (_, fullMatch) \<Rightarrow>
              (let h = (case grp fullMatch 1 of None \<Rightarrow> Fin 0
                        | Some g \<Rightarrow> if g = [] then Fin 0 else parseInt10 g);
                   m = parseInt10 (grp_str fullMatch 2);
                   s = parseInt10 (grp_str fullMatch 3);
                   msStr = grp_str fullMatch 4;
                   ms0 = parseInt10 msStr;
                   ms = (if length msStr = 1 then js_mul ms0 (Fin 100)
                         else if length msStr = 2 then js_mul ms0 (Fin 10) else ms0)
               in js_add (js_add (js_add (js_mul h (Fin 3600000)) (js_mul m (Fin 60000))) (js_mul s (Fin 1000))) ms)
          | None \<Rightarrow>
              if re_match numRe cleanStr \<noteq> None then js_mul (parseFloat cleanStr) (Fin 1000)
              else Fin 0))"

text \<open>
  The specification's reading of the LRC round trip: \<open>ms\<close> rounded to the nearest
  multiple of 10 ms, a tie going up as \<open>Math.round\<close> does.
\<close>

definition nearest_10ms :: "int \<Rightarrow> int" where
  "nearest_10ms ms = (ms + 5) div 10 * 10"

text \<open>
  Strings of \<open>lo\<close> to \<open>hi\<close> decimal digits, and the factor that the decoder applies to a
  fraction of one, two or three digits.
\<close>

definition digit_str :: "nat \<Rightarrow> nat \<Rightarrow> string \<Rightarrow> bool" where
  "digit_str lo hi s = (list_all is_digit s \<and> lo \<le> length s \<and> length s \<le> hi)"

definition frac_scale :: "string \<Rightarrow> nat" where
  "frac_scale f = (if length f = 1 then 100 else if length f = 2 then 10 else 1)"

section \<open>The format detector\<close>

datatype SubtitleFormat = LRC | LRC_ENHANCED | SRT | VTT | VTT_KARAOKE | TTML | TTML_KARAOKE | TXT | JSON

text \<open>\<open>/^\[\d{2}:\d{2}\.\d{2}\]/\<close>\<close>

definition lrcSniffRe :: re where
  "lrcSniffRe = cat [Lit CHR ''['', Rep Digit 2 (Some 2), Lit CHR '':'', Rep Digit 2 (Some 2),
     Lit CHR ''.'', Rep Digit 2 (Some 2), Lit CHR '']'']"

definition detectFormat :: "string \<Rightarrow> string \<Rightarrow> SubtitleFormat" where
  "detectFormat filename content =
     (if endsWith filename ''.lrc'' then LRC
      else if endsWith filename ''.srt'' then SRT
      else if endsWith filename ''.vtt'' then VTT
      else if endsWith filename ''.xml'' \<or> endsWith filename ''.ttml'' then TTML
      else if endsWith filename ''.json'' then JSON
      else if endsWith filename ''.txt'' then TXT
      else let trimmed = trim content in
        if startsWith trimmed ''{'' \<or> startsWith trimmed ''['' then JSON
        else if startsWith trimmed ''WEBVTT'' then VTT
        else if str_includes content ''http://www.w3.org/ns/ttml'' then TTML
        else if re_match lrcSniffRe content \<noteq> None then LRC
        else SRT)"

text \<open>
  The specification's detector: the table of extensions, then the ordered content rules.
  A text leads the content when the content starts with it after its initial white space.
  (The code looks for the bracketed timestamp at the very start of the content, without
  skipping white space; in the fourth place of the order both readings never hold, since
  either way the content then leads with \<open>[\<close>.)
\<close>

definition ext_table :: "(string \<times> SubtitleFormat) list" where
  "ext_table = [(''.lrc'', LRC), (''.srt'', SRT), (''.vtt'', VTT), (''.xml'', TTML), (''.ttml'', TTML),
     (''.json'', JSON), (''.txt'', TXT)]"

definition ext_format :: "string \<Rightarrow> SubtitleFormat option" where
  "ext_format filename = map_option snd (find (\<lambda>e. endsWith filename (fst e)) ext_table)"

definition leading :: "string \<Rightarrow> string \<Rightarrow> bool" where
  "leading p content = startsWith (trimStart content) p"

definition leading_timestamp :: "string \<Rightarrow> bool" where
  "leading_timestamp content = (case trimStart content of
       b # m1 # m2 # c # s1 # s2 # d # c1 # c2 # e # _ \<Rightarrow>
         b = CHR ''['' \<and> is_digit m1 \<and> is_digit m2 \<and> c = CHR '':'' \<and> is_digit s1 \<and> is_digit s2
         \<and> d = CHR ''.'' \<and> is_digit c1 \<and> is_digit c2 \<and> e = CHR '']''
     | _ \<Rightarrow> False)"

definition sniff_rules :: "((string \<Rightarrow> bool) \<times> SubtitleFormat) list" where
  "sniff_rules = [(\<lambda>c. leading ''{'' c \<or> leading ''['' c, JSON),
     (leading ''WEBVTT'', VTT),
     (\<lambda>c. str_includes c ''http://www.w3.org/ns/ttml'', TTML),
     (leading_timestamp, LRC)]"

definition sniff_spec :: "string \<Rightarrow> SubtitleFormat" where
  "sniff_spec content = (case find (\<lambda>r. fst r content) sniff_rules of Some r \<Rightarrow> snd r | None \<Rightarrow> SRT)"

definition detectFormat_spec :: "string \<Rightarrow> string \<Rightarrow> SubtitleFormat" where
  "detectFormat_spec filename content =
     (case ext_format filename of Some fmt \<Rightarrow> fmt | None \<Rightarrow> sniff_spec content)"

section \<open>The data model\<close>

record Word =
  word_id :: string
  word_text :: string
  word_start :: "jsnum option"
  word_end :: "jsnum option"

record Cue =
  cue_id :: string
  cue_start :: jsnum
  cue_end :: jsnum
  cue_text :: string
  cue_words :: "Word list option"

record Metadata =
  md_title :: "string option"
  md_artist :: "string option"
  md_album :: "string option"
  md_by :: "string option"

record ParseResult =
  cues :: "Cue list"
  metadata :: Metadata

definition empty_metadata :: Metadata where
  "empty_metadata = \<lparr>md_title = None, md_artist = None, md_album = None, md_by = None\<rparr>"

section \<open>The LRC parser\<close>

text \<open>\<open>content.split(/\r?\n/)\<close>: \<open>cur\<close> is the line read so far.\<close>

fun split_lines_from :: "string \<Rightarrow> string \<Rightarrow> string list" where
  "split_lines_from cur [] = [cur]"
| "split_lines_from cur [c] = (if c = CHR 0x0A then [cur, []] else [cur @ [c]])"
| "split_lines_from cur (c # d # s) =
     (if c = CHR 0x0D \<and> d = CHR 0x0A then cur # split_lines_from [] s
      else if c = CHR 0x0A then cur # split_lines_from [] (d # s)
      else split_lines_from (cur @ [c]) (d # s))"

definition split_lines :: "string \<Rightarrow> string list" where
  "split_lines content = split_lines_from [] content"

text \<open>
  \<open>s.replace(r, '')\<close> for a global pattern \<open>r\<close>: every match is deleted, the search going on
  after it; where the pattern matches the empty string the character is kept.
\<close>

function re_remove_all :: "re \<Rightarrow> string \<Rightarrow> string" where
  "re_remove_all r [] = []"
| "re_remove_all r (c # s) = (case re_match r (c # s) of
       None \<Rightarrow> c # re_remove_all r s
     | Some (rest, _) \<Rightarrow> if length rest \<le> length s then re_remove_all r rest else c # re_remove_all r s)"
  by pat_completeness auto
termination
  by (relation "measure (\<lambda>(r, s). length s)") auto

text \<open>
  The loop \<open>while ((m = r.exec(s)) !== null)\<close> for a global pattern \<open>r\<close>: the matches from
  left to right, each with its index and its captures, the search going on after each
  match. The patterns it is used with match no empty string.
\<close>

function exec_all :: "re \<Rightarrow> nat \<Rightarrow> string \<Rightarrow> (nat \<times> caps) list" where
  "exec_all r i [] = []"
| "exec_all r i (c # s) = (case re_match r (c # s) of
       None \<Rightarrow> exec_all r (Suc i) s
     | Some (rest, cs) \<Rightarrow>
         if length rest \<le> length s then (i, cs) # exec_all r (i + (Suc (length s) - length rest)) rest
         else [(i, cs)])"
  by pat_completeness auto
termination
  by (relation "measure (\<lambda>(r, i, s). length s)") auto

text \<open>\<open>/\[(\d{2}:\d{2}(?:\.\d{2,3})?)\](.*)/\<close>\<close>

definition lrcLineRe :: re where
  "lrcLineRe = cat [Lit CHR ''['',
     Grp 1 (cat [Rep Digit 2 (Some 2), Lit CHR '':'', Rep Digit 2 (Some 2),
                 Opt (cat [Lit CHR ''.'', Rep Digit 2 (Some 3)])]),
     Lit CHR '']'', Grp 2 (Rep Dot 0 None)]"

text \<open>\<open>/<(\d{2}:\d{2}(?:\.\d{2,3})?)>([^<]*)/g\<close>\<close>

definition lrcWordRe :: re where
  "lrcWordRe = cat [Lit CHR ''<'',
     Grp 1 (cat [Rep Digit 2 (Some 2), Lit CHR '':'', Rep Digit 2 (Some 2),
                 Opt (cat [Lit CHR ''.'', Rep Digit 2 (Some 3)])]),
     Lit CHR ''>'', Grp 2 (Rep (NoneOf ''<'') 0 None)]"

text \<open>\<open>/<[^>]+>/g\<close>\<close>

definition tagRe :: re where
  "tagRe = cat [Lit CHR ''<'', Rep (NoneOf ''>'') 1 None, Lit CHR ''>'']"

text \<open>\<open>/\[ti:(.*?)\]/\<close>, and the same for \<open>ar\<close>, \<open>al\<close> and \<open>by\<close>.\<close>

definition lrcTagRe :: "string \<Rightarrow> re" where
  "lrcTagRe key = cat ([Lit CHR ''[''] @ map Lit key @ [Lit CHR '':'', Grp 1 (RepLazy Dot 0 None), Lit CHR '']''])"

definition lrc_tag :: "string \<Rightarrow> string \<Rightarrow> string option" where
  "lrc_tag key content = (case re_search_from (lrcTagRe key) 0 content of
       None \<Rightarrow> None
     | Some (_, _, m) \<Rightarrow> Some (trim (grp_str m 1)))"

definition lrc_word :: "nat \<Rightarrow> nat \<times> caps \<Rightarrow> Word" where
  "lrc_word index wordMatch =
     \<lparr>word_id = ''w-'' @ nat_toString index @ ''-'' @ nat_toString (fst wordMatch),
      word_text = trim (grp_str (snd wordMatch) 2),
      word_start = Some (timeToMs (grp_str (snd wordMatch) 1)),
      word_end = None\<rparr>"

text \<open>The body of \<open>lines.forEach\<close>: the cue of a line, if the line has one.\<close>

definition lrc_line :: "nat \<Rightarrow> string \<Rightarrow> Cue option" where
  "lrc_line index line = (case re_search_from lrcLineRe 0 line of
       None \<Rightarrow> None
     | Some (_, _, m) \<Rightarrow>
        (let start = timeToMs (grp_str m 1);
             rawText = grp_str m 2;
             tagged = (str_includes rawText ''<'' \<and> str_includes rawText ''>'');
             text = (if tagged then trim (re_remove_all tagRe rawText) else trim rawText);
             words = (if tagged then map (lrc_word index) (exec_all lrcWordRe 0 rawText) else [])
         in Some \<lparr>cue_id = ''lrc-'' @ nat_toString index,
                  cue_start = start,
                  cue_end = js_add start (Fin 3000),
                  cue_text = text,
                  cue_words = (if 0 < length words then Some words else None)\<rparr>))"

fun lrc_lines :: "nat \<Rightarrow> string list \<Rightarrow> Cue list" where
  "lrc_lines index [] = []"
| "lrc_lines index (line # lines) = (case lrc_line index line of
       None \<Rightarrow> lrc_lines (Suc index) lines
     | Some cue \<Rightarrow> cue # lrc_lines (Suc index) lines)"

text \<open>The loop \<open>for (i = 0; i < cues.length - 1; i++) cues[i].end = cues[i + 1].start\<close>.\<close>

fun infer_ends :: "Cue list \<Rightarrow> Cue list" where
  "infer_ends (c # d # cs) = c\<lparr>cue_end := cue_start d\<rparr> # infer_ends (d # cs)"
| "infer_ends cs = cs"

definition parseLRC :: "string \<Rightarrow> ParseResult" where
  "parseLRC content =
     \<lparr>cues = infer_ends (lrc_lines 0 (split_lines content)),
      metadata = \<lparr>md_title = lrc_tag ''ti'' content, md_artist = lrc_tag ''ar'' content,
                  md_album = lrc_tag ''al'' content, md_by = lrc_tag ''by'' content\<rparr>\<rparr>"


definition lrc_sample :: string where
  "lrc_sample = ''[00:01.00]a'' @ [CHR 0x0A] @ ''[00:02.50]b''"

section \<open>The TTML parser\<close>

text \<open>
  The document that \<open>DOMParser.parseFromString(content, "text/xml")\<close> returns, as far as
  the parser reads it: text nodes, elements with their qualified name, local name,
  attributes and children, and the other nodes (comments, CDATA sections, processing
  instructions), which are neither \<open>TEXT_NODE\<close> nor \<open>ELEMENT_NODE\<close>. \<open>DOMParser\<close> belongs
  to the platform; the parser takes it as a parameter.
\<close>

datatype xml_node =
    TextNode string
  | ElementNode string string "(string \<times> string) list" "xml_node list"
  | OtherNode

type_synonym document = "xml_node list"

fun getAttribute :: "xml_node \<Rightarrow> string \<Rightarrow> string option" where
  "getAttribute (ElementNode tagName localName attributes childNodes) name = map_of attributes name"
| "getAttribute _ name = None"

text \<open>\<open>getElementsByTagName\<close>: the elements of that qualified name, in document order.\<close>

fun elementsByTagName :: "string \<Rightarrow> xml_node \<Rightarrow> xml_node list"
  and elementsByTagName_list :: "string \<Rightarrow> xml_node list \<Rightarrow> xml_node list" where
  "elementsByTagName name (ElementNode tagName localName attributes childNodes) =
     (if tagName = name then [ElementNode tagName localName attributes childNodes] else [])
     @ elementsByTagName_list name childNodes"
| "elementsByTagName name (TextNode t) = []"
| "elementsByTagName name OtherNode = []"
| "elementsByTagName_list name [] = []"
| "elementsByTagName_list name (n # ns) = elementsByTagName name n @ elementsByTagName_list name ns"

definition getElementsByTagName :: "document \<Rightarrow> string \<Rightarrow> xml_node list" where
  "getElementsByTagName doc name = elementsByTagName_list name doc"

text \<open>\<open>toLowerCase\<close> on the code units of the model: the letters A to Z and the capital letters of Latin-1.\<close>

definition char_toLower :: "char \<Rightarrow> char" where
  "char_toLower c = (let n = (of_char c :: nat) in
     if (65 \<le> n \<and> n \<le> 90) \<or> (192 \<le> n \<and> n \<le> 222 \<and> n \<noteq> 215) then char_of (n + 32) else c)"

definition toLowerCase :: "string \<Rightarrow> string" where
  "toLowerCase s = map char_toLower s"

fun extractText :: "xml_node \<Rightarrow> string"
  and extractText_children :: "xml_node list \<Rightarrow> string" where
  "extractText (ElementNode tagName localName attributes childNodes) = extractText_children childNodes"
| "extractText (TextNode t) = []"
| "extractText OtherNode = []"
| "extractText_children [] = []"
| "extractText_children (child # rest) =
     (case child of
        TextNode t \<Rightarrow> t
      | ElementNode tag lname _ _ \<Rightarrow>
          (let tagName = (if lname \<noteq> [] then toLowerCase lname else toLowerCase tag) in
           if tagName = ''br'' then [CHR 0x0A]
           else if tagName \<noteq> ''metadata'' \<and> tagName \<noteq> ''head'' \<and> tagName \<noteq> ''style'' then extractText child
           else [])
      | OtherNode \<Rightarrow> [])
     @ extractText_children rest"

text \<open>\<open>s.replace(/\s+/g, ' ')\<close>: every run of white space becomes one space.\<close>

fun collapse_ws_from :: "bool \<Rightarrow> string \<Rightarrow> string" where
  "collapse_ws_from in_run [] = []"
| "collapse_ws_from in_run (c # s) =
     (if is_ws c then (if in_run then collapse_ws_from True s else CHR '' '' # collapse_ws_from True s)
      else c # collapse_ws_from False s)"

definition collapse_ws :: "string \<Rightarrow> string" where
  "collapse_ws s = collapse_ws_from False s"

text \<open>
  \<open>a || d\<close> for an attribute value \<open>a\<close> and a string \<open>d\<close>: \<open>null\<close> and the empty string
  are falsy.
\<close>

definition attr_or :: "string option \<Rightarrow> string \<Rightarrow> string" where
  "attr_or a d = (case a of None \<Rightarrow> d | Some s \<Rightarrow> if s \<noteq> [] then s else d)"

text \<open>The body of the loop over the \<open>p\<close> elements.\<close>

definition ttml_cue :: "nat \<Rightarrow> xml_node \<Rightarrow> Cue" where
  "ttml_cue i p =
     (let begin = getAttribute p ''begin'';
          end = getAttribute p ''end'';
          dur = getAttribute p ''dur'';
          rawText = extractText p;
          text = trim (collapse_ws rawText);
          startMs = timeToMs (attr_or begin ''0'');
          endMs0 = (case end of None \<Rightarrow> js_add startMs (Fin 2000)
                    | Some e \<Rightarrow> if e \<noteq> [] then timeToMs e else js_add startMs (Fin 2000));
          endMs = (case dur of None \<Rightarrow> endMs0
                   | Some d \<Rightarrow> if d \<noteq> [] then js_add startMs (timeToMs d) else endMs0)
      in \<lparr>cue_id = ''ttml-'' @ nat_toString i, cue_start = startMs, cue_end = endMs,
           cue_text = text, cue_words = None\<rparr>)"

definition parseTTML :: "(string \<Rightarrow> document) \<Rightarrow> string \<Rightarrow> ParseResult" where
  "parseTTML parseFromString content =
     (let xmlDoc = parseFromString content;
          ps = getElementsByTagName xmlDoc ''p''
      in \<lparr>cues = map (\<lambda>(i, p). ttml_cue i p) (enumerate 0 ps), metadata = empty_metadata\<rparr>)"

text \<open>The timing of a \<open>p\<close> element as the specification states it.\<close>

definition ttml_start_spec :: "xml_node \<Rightarrow> jsnum" where
  "ttml_start_spec p = (case getAttribute p ''begin'' of None \<Rightarrow> Fin 0 | Some b \<Rightarrow> timeToMs b)"

definition ttml_end_spec :: "xml_node \<Rightarrow> jsnum" where
  "ttml_end_spec p = (case getAttribute p ''dur'' of
       Some d \<Rightarrow> js_add (ttml_start_spec p) (timeToMs d)
     | None \<Rightarrow> (case getAttribute p ''end'' of
         Some e \<Rightarrow> timeToMs e
       | None \<Rightarrow> js_add (ttml_start_spec p) (Fin 2000)))"

text \<open>The same, an attribute with an empty value counting as absent.\<close>

definition nonempty_attr :: "xml_node \<Rightarrow> string \<Rightarrow> string option" where
  "nonempty_attr p name = (case getAttribute p name of None \<Rightarrow> None | Some v \<Rightarrow> if v = [] then None else Some v)"

definition ttml_end_amended :: "xml_node \<Rightarrow> jsnum" where
  "ttml_end_amended p = (case nonempty_attr p ''dur'' of
       Some d \<Rightarrow> js_add (ttml_start_spec p) (timeToMs d)
     | None \<Rightarrow> (case nonempty_attr p ''end'' of
         Some e \<Rightarrow> timeToMs e
       | None \<Rightarrow> js_add (ttml_start_spec p) (Fin 2000)))"

definition ttml_sample :: document where
  "ttml_sample = [ElementNode ''tt'' ''tt'' [] [ElementNode ''body'' ''body'' [] [
     ElementNode ''p'' ''p'' [(''begin'', ''1s''), (''dur'', ''500ms'')] [TextNode ''a''],
     ElementNode ''p'' ''p'' [(''end'', ''00:00:04.000'')] [TextNode ''b '', ElementNode ''br'' ''br'' [] [], TextNode '' c''],
     ElementNode ''p'' ''p'' [(''begin'', ''5s'')] [TextNode ''d'']]]]"

definition ttml_empty_dur :: document where
  "ttml_empty_dur = [ElementNode ''p'' ''p'' [(''begin'', ''1s''), (''dur'', [])] []]"

section \<open>The serializers\<close>

text \<open>\<open>a || b\<close> for an optional number \<open>a\<close>: \<open>undefined\<close>, \<open>0\<close> and \<open>NaN\<close> are falsy.\<close>

definition num_or :: "jsnum option \<Rightarrow> jsnum \<Rightarrow> jsnum" where
  "num_or a b = (case a of None \<Rightarrow> b | Some x \<Rightarrow> if js_truthy x then x else b)"

text \<open>\<open>xs.join(sep)\<close> on strings.\<close>

fun join :: "string \<Rightarrow> string list \<Rightarrow> string" where
  "join sep [] = []"
| "join sep [x] = x"
| "join sep (x # y # zs) = x @ sep @ join sep (y # zs)"

text \<open>\<open>cue.words && cue.words.length > 0\<close>\<close>

definition has_words :: "Cue \<Rightarrow> bool" where
  "has_words cue = (case cue_words cue of None \<Rightarrow> False | Some ws \<Rightarrow> 0 < length ws)"

definition words_of :: "Cue \<Rightarrow> Word list" where
  "words_of cue = (case cue_words cue of None \<Rightarrow> [] | Some ws \<Rightarrow> ws)"

definition md_line :: "string \<Rightarrow> string option \<Rightarrow> string" where
  "md_line tag v = (case v of None \<Rightarrow> [] | Some s \<Rightarrow> if s \<noteq> [] then ''['' @ tag @ '':'' @ s @ '']'' @ [CHR 0x0A] else [])"

text \<open>The word of an enhanced LRC line: \<open>`<${msToLrc(w.start || cue.start)}>${w.text}`\<close>.\<close>

definition lrc_word_tag :: "Cue \<Rightarrow> Word \<Rightarrow> string" where
  "lrc_word_tag cue w = ''<'' @ msToLrc (num_or (word_start w) (cue_start cue)) @ ''>'' @ word_text w"

definition lrc_cue_line :: "bool \<Rightarrow> Cue \<Rightarrow> string" where
  "lrc_cue_line enhanced cue =
     ''['' @ msToLrc (cue_start cue) @ '']'' @
     (if enhanced \<and> has_words cue then join '' '' (map (lrc_word_tag cue) (words_of cue))
      else cue_text cue)"

definition stringifyLRC :: "Cue list \<Rightarrow> bool \<Rightarrow> Metadata option \<Rightarrow> string" where
  "stringifyLRC cs enhanced md =
     (let header = (case md of None \<Rightarrow> []
            | Some m \<Rightarrow> md_line ''ti'' (md_title m) @ md_line ''ar'' (md_artist m)
                @ md_line ''al'' (md_album m) @ md_line ''by'' (md_by m));
          body = join [CHR 0x0A] (map (lrc_cue_line enhanced) cs)
      in header @ body)"

text \<open>The word of a karaoke VTT cue: \<open>`<${msToVtt(w.start || cue.start)}>${w.text}`\<close>.\<close>

definition vtt_word_tag :: "Cue \<Rightarrow> Word \<Rightarrow> string" where
  "vtt_word_tag cue w = ''<'' @ msToVtt (num_or (word_start w) (cue_start cue)) @ ''>'' @ word_text w"

definition vtt_cue_block :: "bool \<Rightarrow> Cue \<Rightarrow> string" where
  "vtt_cue_block karaoke cue =
     (let text = (if karaoke \<and> has_words cue then join '' '' (map (vtt_word_tag cue) (words_of cue))
                  else cue_text cue)
      in msToVtt (cue_start cue) @ '' --> '' @ msToVtt (cue_end cue) @ [CHR 0x0A] @ text @ [CHR 0x0A])"

definition stringifyVTT :: "Cue list \<Rightarrow> bool \<Rightarrow> Metadata option \<Rightarrow> string" where
  "stringifyVTT cs karaoke md =
     (let header = ''WEBVTT'' @ [CHR 0x0A]
            @ (case md of None \<Rightarrow> []
               | Some m \<Rightarrow> (case md_title m of None \<Rightarrow> []
                   | Some t \<Rightarrow> if t \<noteq> [] then ''Note Title: '' @ t @ [CHR 0x0A] else []))
            @ [CHR 0x0A]
      in header @ join [CHR 0x0A] (map (vtt_cue_block karaoke) cs))"

text \<open>\<open>text.replace(/\n/g, '<br/>')\<close>\<close>

definition br_newlines :: "string \<Rightarrow> string" where
  "br_newlines s = concat (map (\<lambda>c. if c = CHR 0x0A then ''<br/>'' else [c]) s)"

text \<open>The span of a word of a karaoke TTML cue, its times relative to the start of the cue.\<close>

definition ttml_span :: "Cue \<Rightarrow> Word \<Rightarrow> string" where
  "ttml_span cue w =
     (let startOffset = Math_max (Fin 0) (js_sub (num_or (word_start w) (cue_start cue)) (cue_start cue));
          endOffset = Math_max (Fin 0)
            (js_sub (num_or (word_end w) (js_add (num_or (word_start w) (cue_start cue)) (Fin 300))) (cue_start cue))
      in ''<span begin=\"'' @ msToVtt startOffset @ ''\" end=\"'' @ msToVtt endOffset @ ''\">'' @ word_text w @ ''</span>'')"

definition ttml_cue_p :: "bool \<Rightarrow> Cue \<Rightarrow> string" where
  "ttml_cue_p karaoke cue =
     (let content = (if karaoke \<and> has_words cue
            then [CHR 0x0A] @ join [CHR 0x0A] (map (\<lambda>s. ''        '' @ s) (map (ttml_span cue) (words_of cue)))
                 @ [CHR 0x0A] @ ''      ''
            else br_newlines (cue_text cue))
      in ''      <p begin=\"'' @ msToVtt (cue_start cue) @ ''\" end=\"'' @ msToVtt (cue_end cue) @ ''\">''
         @ content @ ''</p>'')"

definition stringifyTTML :: "Cue list \<Rightarrow> bool \<Rightarrow> string" where
  "stringifyTTML cs karaoke =
     (let body = join [CHR 0x0A] (map (ttml_cue_p karaoke) cs)
      in ''<?xml version=\"1.0\" encoding=\"UTF-8\"?>'' @ [CHR 0x0A]
         @ ''<tt xmlns=\"http://www.w3.org/ns/ttml\" lang=\"en\">'' @ [CHR 0x0A]
         @ ''  <body>'' @ [CHR 0x0A]
         @ ''    <div>'' @ [CHR 0x0A]
         @ body @ [CHR 0x0A]
         @ ''    </div>'' @ [CHR 0x0A]
         @ ''  </body>'' @ [CHR 0x0A]
         @ ''</tt>'')"

definition zero_cue :: Cue where
  "zero_cue = \<lparr>cue_id = ''c'', cue_start = Fin 0, cue_end = Fin 1000, cue_text = ''hi'',
     cue_words = Some [\<lparr>word_id = ''w'', word_text = ''hi'', word_start = Some (Fin 0), word_end = None\<rparr>]\<rparr>"

definition late_cue :: Cue where
  "late_cue = \<lparr>cue_id = ''c'', cue_start = Fin 83450, cue_end = Fin 85000, cue_text = ''hi yo'',
     cue_words = Some [\<lparr>word_id = ''w'', word_text = ''hi'', word_start = Some (Fin 0), word_end = Some (Fin 0)\<rparr>,
                       \<lparr>word_id = ''v'', word_text = ''yo'', word_start = Some (Fin 84000), word_end = None\<rparr>]\<rparr>"

text \<open>
  The reading of the fallbacks as a change of the data: a word start that is absent or
  \<open>0\<close> replaced by the start of the cue, and a word end that is absent or \<open>0\<close> replaced by
  the start that the word is serialized with plus 300 ms.
\<close>

definition with_cue_start :: "Cue \<Rightarrow> Word \<Rightarrow> Word" where
  "with_cue_start cue w =
     (if word_start w = None \<or> word_start w = Some (Fin 0) then w\<lparr>word_start := Some (cue_start cue)\<rparr> else w)"

definition fill_word_starts :: "Cue \<Rightarrow> Cue" where
  "fill_word_starts cue = cue\<lparr>cue_words := map_option (map (with_cue_start cue)) (cue_words cue)\<rparr>"

definition with_default_end :: "Cue \<Rightarrow> Word \<Rightarrow> Word" where
  "with_default_end cue w =
     (if word_end w = None \<or> word_end w = Some (Fin 0)
      then w\<lparr>word_end := Some (js_add (num_or (word_start w) (cue_start cue)) (Fin 300))\<rparr> else w)"

definition fill_word_ends :: "Cue \<Rightarrow> Cue" where
  "fill_word_ends cue = cue\<lparr>cue_words := map_option (map (with_default_end cue)) (cue_words cue)\<rparr>"

definition late_word :: Word where
  "late_word = \<lparr>word_id = ''w'', word_text = ''hi'', word_start = Some (Fin 0), word_end = Some (Fin 0)\<rparr>"

section \<open>The JSON parser\<close>

text \<open>
  The value that \<open>JSON.parse\<close> returns. An object is the list of its members, looked up by
  key. \<open>JSON.parse\<close> and the conversion \<open>String(v)\<close> of an array, an object or a number
  belong to the platform; the parser takes them as parameters. \<open>JSON.parse\<close> throws a
  \<open>SyntaxError\<close> on a text that is not JSON.
\<close>

datatype json = JNull | JBool bool | JNum jsnum | JStr string | JArr "json list" | JObj "(string \<times> json) list"

datatype js_error = SyntaxError | TypeError

text \<open>
  What \<open>parseJSON\<close> returns. The source declares it a \<open>ParseResult\<close>, but \<open>id\<close>, \<open>text\<close> and
  \<open>metadata\<close> are copied from the document unchecked, so they are JSON values here.
\<close>

record JsonWord =
  jw_id :: json
  jw_text :: json
  jw_start :: jsnum
  jw_end :: "jsnum option"

record JsonCue =
  jc_id :: json
  jc_start :: jsnum
  jc_end :: jsnum
  jc_text :: json
  jc_words :: "JsonWord list option"

record JsonParseResult =
  jr_cues :: "JsonCue list"
  jr_metadata :: json

text \<open>
  Reading a property \<open>v.key\<close>: a \<open>TypeError\<close> on \<open>null\<close>, the member of an object,
  \<open>undefined\<close> (\<open>None\<close>) on everything else; none of the keys that the parser reads is a
  property of a string, a number, a boolean or an array.
\<close>

definition get_prop :: "json \<Rightarrow> string \<Rightarrow> js_error + json option" where
  "get_prop v key = (case v of JNull \<Rightarrow> Inl TypeError | JObj members \<Rightarrow> Inr (map_of members key) | _ \<Rightarrow> Inr None)"

definition json_truthy :: "json option \<Rightarrow> bool" where
  "json_truthy v = (case v of None \<Rightarrow> False | Some JNull \<Rightarrow> False | Some (JBool b) \<Rightarrow> b
     | Some (JNum n) \<Rightarrow> js_truthy n | Some (JStr s) \<Rightarrow> s \<noteq> [] | Some _ \<Rightarrow> True)"

text \<open>\<open>v || d\<close>\<close>

definition json_or :: "json option \<Rightarrow> json \<Rightarrow> json" where
  "json_or v d = (case v of None \<Rightarrow> d | Some x \<Rightarrow> if json_truthy v then x else d)"

text \<open>\<open>String(v)\<close>, the platform's conversion \<open>conv\<close> for arrays, objects and numbers.\<close>

definition to_String :: "(json \<Rightarrow> string) \<Rightarrow> json \<Rightarrow> string" where
  "to_String conv v = (case v of JStr s \<Rightarrow> s | JBool b \<Rightarrow> (if b then ''true'' else ''false'')
     | JNull \<Rightarrow> ''null'' | _ \<Rightarrow> conv v)"

definition bind_err :: "js_error + 'a \<Rightarrow> ('a \<Rightarrow> js_error + 'b) \<Rightarrow> js_error + 'b" where
  "bind_err x f = (case x of Inl e \<Rightarrow> Inl e | Inr v \<Rightarrow> f v)"

text \<open>\<open>xs.map(f)\<close> where \<open>f\<close> may throw: the first error ends the loop.\<close>

fun map_err :: "(nat \<Rightarrow> 'a \<Rightarrow> js_error + 'b) \<Rightarrow> nat \<Rightarrow> 'a list \<Rightarrow> js_error + 'b list" where
  "map_err f i [] = Inr []"
| "map_err f i (x # xs) = bind_err (f i x) (\<lambda>y. bind_err (map_err f (Suc i) xs) (\<lambda>ys. Inr (y # ys)))"

text \<open>\<open>typeof v === 'number' ? v : timeToMs(String(v || '0'))\<close>\<close>

definition json_time :: "(json \<Rightarrow> string) \<Rightarrow> json option \<Rightarrow> jsnum" where
  "json_time conv v = (case v of Some (JNum n) \<Rightarrow> n | _ \<Rightarrow> timeToMs (to_String conv (json_or v (JStr ''0''))))"

definition json_word :: "(json \<Rightarrow> string) \<Rightarrow> nat \<Rightarrow> nat \<Rightarrow> json \<Rightarrow> js_error + JsonWord" where
  "json_word conv i wi w =
     bind_err (get_prop w ''id'') (\<lambda>w_id.
     bind_err (get_prop w ''text'') (\<lambda>w_text.
     bind_err (get_prop w ''start'') (\<lambda>w_start.
     bind_err (get_prop w ''end'') (\<lambda>w_end.
       Inr \<lparr>jw_id = json_or w_id (JStr (''json-w-'' @ nat_toString i @ ''-'' @ nat_toString wi)),
            jw_text = json_or w_text (JStr []),
            jw_start = json_time conv w_start,
            jw_end = (case w_end of Some (JNum n) \<Rightarrow> Some n
                      | _ \<Rightarrow> if json_truthy w_end then Some (timeToMs (to_String conv (json_or w_end JNull))) else None)\<rparr>))))"

definition json_cue :: "(json \<Rightarrow> string) \<Rightarrow> nat \<Rightarrow> json \<Rightarrow> js_error + JsonCue" where
  "json_cue conv i c =
     bind_err (get_prop c ''start'') (\<lambda>c_start.
     bind_err (get_prop c ''end'') (\<lambda>c_end.
     bind_err (get_prop c ''words'') (\<lambda>c_words.
     bind_err (case c_words of Some (JArr ws) \<Rightarrow> bind_err (map_err (json_word conv i) 0 ws) (\<lambda>r. Inr (Some r))
               | _ \<Rightarrow> Inr None) (\<lambda>words.
     bind_err (get_prop c ''id'') (\<lambda>c_id.
     bind_err (get_prop c ''text'') (\<lambda>c_text.
       Inr \<lparr>jc_id = json_or c_id (JStr (''json-'' @ nat_toString i)),
            jc_start = json_time conv c_start,
            jc_end = json_time conv c_end,
            jc_text = json_or c_text (JStr []),
            jc_words = words\<rparr>))))))"

text \<open>The body of the \<open>try\<close> block, from the parsed value on.\<close>

definition parseJSON_body :: "(json \<Rightarrow> string) \<Rightarrow> json \<Rightarrow> js_error + JsonParseResult" where
  "parseJSON_body conv parsed =
     bind_err (case parsed of JArr xs \<Rightarrow> Inr parsed
               | _ \<Rightarrow> bind_err (get_prop parsed ''cues'') (\<lambda>c. Inr (json_or c (JArr [])))) (\<lambda>cuesRaw.
     bind_err (case parsed of JArr xs \<Rightarrow> Inr None | _ \<Rightarrow> get_prop parsed ''metadata'') (\<lambda>md.
     bind_err (case cuesRaw of JArr cs \<Rightarrow> map_err (json_cue conv) 0 cs | _ \<Rightarrow> Inl TypeError) (\<lambda>cs.
       Inr \<lparr>jr_cues = cs,
            jr_metadata = json_or md (JObj [(''title'', JStr []), (''artist'', JStr []),
                                            (''album'', JStr []), (''by'', JStr [])])\<rparr>)))"

text \<open>\<open>{ cues: [], metadata: {} }\<close>\<close>

definition empty_json_result :: JsonParseResult where
  "empty_json_result = \<lparr>jr_cues = [], jr_metadata = JObj []\<rparr>"

text \<open>\<open>parseJSON\<close>: the \<open>catch\<close> clause turns every error into the empty result (and logs it).\<close>

definition parseJSON :: "(string \<Rightarrow> js_error + json) \<Rightarrow> (json \<Rightarrow> string) \<Rightarrow> string \<Rightarrow> JsonParseResult" where
  "parseJSON JSON_parse conv content =
     (case bind_err (JSON_parse content) (parseJSON_body conv) of
        Inl e \<Rightarrow> empty_json_result
      | Inr r \<Rightarrow> r)"

text \<open>A stand-in for \<open>JSON.parse\<close> that knows two documents, for the examples.\<close>

definition sample_JSON_parse :: "string \<Rightarrow> js_error + json" where
  "sample_JSON_parse s =
     (if s = ''[{\"start\":1000,\"end\":\"00:02.50\",\"text\":\"a\"}]''
        then Inr (JArr [JObj [(''start'', JNum (Fin 1000)), (''end'', JStr ''00:02.50''), (''text'', JStr ''a'')]])
      else if s = ''null'' then Inr JNull
      else Inl SyntaxError)"


section \<open>Facts about the primitives\<close>

declare nat_toString.simps [simp del]

lemma digit_char_cases:
  fixes n :: nat
  assumes "n < 10"
  shows "n \<in> {0, 1, 2, 3, 4, 5, 6, 7, 8, 9}"
  using assms by auto

lemma is_digit_digit_char: "n < 10 \<Longrightarrow> is_digit (digit_char n)"
  using digit_char_cases [of n] by (auto simp: is_digit_def digit_char_def)

lemma digit_val_digit_char: "n < 10 \<Longrightarrow> digit_val (digit_char n) = n"
  using digit_char_cases [of n] by (auto simp: digit_val_def digit_char_def)


lemma is_digit_not_ws: "is_digit c \<Longrightarrow> \<not> is_ws c"
  by (auto simp: is_digit_def is_ws_def)

lemma is_digit_neq:
  "is_digit c \<Longrightarrow> c \<noteq> CHR '':''"
  "is_digit c \<Longrightarrow> c \<noteq> CHR ''.''"
  "is_digit c \<Longrightarrow> c \<noteq> CHR '',''"
  "is_digit c \<Longrightarrow> c \<noteq> CHR ''s''"
  "is_digit c \<Longrightarrow> c \<noteq> CHR ''-''"
  "is_digit c \<Longrightarrow> c \<noteq> CHR ''+''"
  by (auto simp: is_digit_def)

lemma nat_toString_lt10: "n < 10 \<Longrightarrow> nat_toString n = [digit_char n]"
  by (subst nat_toString.simps) simp

lemma nat_toString_ge10: "10 \<le> n \<Longrightarrow> nat_toString n = nat_toString (n div 10) @ [digit_char (n mod 10)]"
  by (subst nat_toString.simps) simp

lemma digit_char_0: "digit_char 0 = CHR ''0''"
  by (simp add: digit_char_def)

lemma pad2:
  assumes "n < 100"
  shows "padStart 2 CHR ''0'' (nat_toString n) = [digit_char (n div 10), digit_char (n mod 10)]"
proof (cases "n < 10")
  case True
  then show ?thesis by (simp add: nat_toString_lt10 padStart_def digit_char_0)
next
  case False
  with assms have "n div 10 < 10" "10 \<le> n" by simp_all
  then show ?thesis
    by (simp add: nat_toString_ge10 nat_toString_lt10 padStart_def)
qed

lemma pad3:
  assumes "n < 1000"
  shows "padStart 3 CHR ''0'' (nat_toString n) = [digit_char (n div 100), digit_char (n div 10 mod 10), digit_char (n mod 10)]"
proof -
  consider "n < 10" | "10 \<le> n" "n < 100" | "100 \<le> n" by linarith
  then show ?thesis
  proof cases
    case 1
    then have "n div 100 = 0" "n div 10 = 0" by simp_all
    moreover have "replicate 2 CHR ''0'' = ''00''" by (simp add: numeral_2_eq_2)
    ultimately show ?thesis using 1 by (simp add: nat_toString_lt10 padStart_def digit_char_0)
  next
    case 2
    then have "n div 10 < 10" "n div 100 = 0" by simp_all
    with 2 show ?thesis
      by (simp add: nat_toString_ge10 nat_toString_lt10 padStart_def digit_char_0)
  next
    case 3
    with assms have a: "n div 10 div 10 < 10" "10 \<le> n div 10" "10 \<le> n" "n div 10 div 10 = n div 100" by auto
    have "nat_toString n = [digit_char (n div 100), digit_char (n div 10 mod 10), digit_char (n mod 10)]"
      using a by (simp add: nat_toString_ge10 [of n] nat_toString_ge10 [of "n div 10"] nat_toString_lt10)
    then show ?thesis by (simp add: padStart_def)
  qed
qed

lemma timeToMs_full_shape:
  assumes "is_digit a" "is_digit b" "is_digit c" "is_digit d" "is_digit e" "is_digit f"
    "is_digit g" "is_digit h" "is_digit i" "sep = CHR '','' \<or> sep = CHR ''.''"
  shows "timeToMs [a, b, CHR '':'', c, d, CHR '':'', e, f, sep, g, h, i] =
     Fin (of_nat ((10 * digit_val a + digit_val b) * 3600000 + (10 * digit_val c + digit_val d) * 60000
        + (10 * digit_val e + digit_val f) * 1000 + (100 * digit_val g + 10 * digit_val h + digit_val i)))"
  using assms
  apply (elim disjE)
  apply (simp_all add: timeToMs_def trim_def is_digit_not_ws endsWith_def is_digit_neq slice_end_def)
  apply (simp_all add: re_match_def lrcRe_def fullRe_def rep_counts_def is_digit_def[of "CHR '':''"] is_digit_neq upt_rec)
  apply (simp_all add: grp_def grp_str_def parseInt10_def trimStart_def is_digit_not_ws strip_sign_def is_digit_neq
      digits_val_def js_mul_def js_add_def)
  done

lemma Math_round_nat: "Math_round (Fin (of_nat n)) = Fin (of_nat n)"
proof -
  have "\<lfloor>(of_nat n :: rat) + 1 / 2\<rfloor> = int n" by linarith
  then show ?thesis by (simp add: Math_round_def)
qed

lemma floor_div_nat: "Math_floor (js_div (Fin (of_nat a)) (Fin (numeral k))) = Fin (of_nat (a div numeral k))"
proof -
  have "\<lfloor>(of_int (int a) :: rat) / of_int (numeral k)\<rfloor> = int a div numeral k"
    by (rule floor_divide_of_int_eq)
  then have "\<lfloor>(of_nat a :: rat) / numeral k\<rfloor> = int (a div numeral k)"
    by (simp add: zdiv_int)
  then show ?thesis by (simp add: Math_floor_def js_div_def)
qed

lemma js_rem_nat: "js_rem (Fin (of_nat a)) (Fin (numeral k)) = Fin (of_nat (a mod numeral k))"
proof -
  have "\<lfloor>(of_int (int a) :: rat) / of_int (numeral k)\<rfloor> = int a div numeral k"
    by (rule floor_divide_of_int_eq)
  then have f: "\<lfloor>(of_nat a :: rat) / numeral k\<rfloor> = int (a div numeral k)"
    by (simp add: zdiv_int)
  have "(0::rat) \<le> of_nat a / numeral k" by simp
  then have t: "trunc_rat (of_nat a / numeral k) = int (a div numeral k)"
    using f by (simp add: trunc_rat_def)
  have "a = numeral k * (a div numeral k) + a mod numeral k" by simp
  then have "(of_nat a :: rat) = of_nat (numeral k * (a div numeral k) + a mod numeral k)" by simp
  then have "(of_nat a :: rat) - numeral k * of_nat (a div numeral k) = of_nat (a mod numeral k)"
    by (simp only: of_nat_add of_nat_mult of_nat_numeral)
  then show ?thesis using t by (simp add: js_rem_def)
qed

lemma num_toString_nat: "num_toString (Fin (of_nat a)) = nat_toString a"
  by (simp add: num_toString_def int_toString_def)

lemma msToSrt_nat:
  "msToSrt (Fin (of_nat n)) =
     padStart 2 CHR ''0'' (nat_toString (n div 3600000)) @ '':'' @
     padStart 2 CHR ''0'' (nat_toString (n mod 3600000 div 60000)) @ '':'' @
     padStart 2 CHR ''0'' (nat_toString (n mod 60000 div 1000)) @ '','' @
     padStart 3 CHR ''0'' (nat_toString (n mod 1000))"
  by (simp add: msToSrt_def Math_round_nat js_rem_nat floor_div_nat num_toString_nat)

lemma hms_decompose:
  fixes n :: nat
  shows "n div 3600000 * 3600000 + n mod 3600000 div 60000 * 60000 + n mod 60000 div 1000 * 1000 + n mod 1000 = n"
proof -
  have a: "n mod 3600000 mod 60000 = n mod 60000" by (simp add: mod_mod_cancel)
  have b: "n mod 60000 mod 1000 = n mod 1000" by (simp add: mod_mod_cancel)
  have "n = n div 3600000 * 3600000 + n mod 3600000" by simp
  moreover have "n mod 3600000 = n mod 3600000 div 60000 * 60000 + n mod 3600000 mod 60000" by simp
  moreover have "n mod 60000 = n mod 60000 div 1000 * 1000 + n mod 60000 mod 1000" by simp
  ultimately show ?thesis using a b by linarith
qed

lemma two_digits: "10 * (k div 10) + k mod 10 = (k::nat)"
  by simp

lemma three_digits: "100 * (k div 100) + 10 * (k div 10 mod 10) + k mod 10 = (k::nat)"
proof -
  have "k div 10 = 10 * (k div 10 div 10) + k div 10 mod 10" by simp
  moreover have "k div 10 div 10 = k div 100" by (simp add: div_mult2_eq[symmetric])
  moreover have "k = 10 * (k div 10) + k mod 10" by simp
  ultimately show ?thesis by linarith
qed

lemma msToVtt_nat:
  "msToVtt (Fin (of_nat n)) =
     padStart 2 CHR ''0'' (nat_toString (n div 3600000)) @ '':'' @
     padStart 2 CHR ''0'' (nat_toString (n mod 3600000 div 60000)) @ '':'' @
     padStart 2 CHR ''0'' (nat_toString (n mod 60000 div 1000)) @ ''.'' @
     padStart 3 CHR ''0'' (nat_toString (n mod 1000))"
  by (simp add: msToVtt_def Math_round_nat js_rem_nat floor_div_nat num_toString_nat)

lemma digit_bounds:
  "\<And>k::nat. k < 100 \<Longrightarrow> k div 10 < 10"
  "\<And>k::nat. k mod 10 < 10"
  "\<And>k::nat. k < 1000 \<Longrightarrow> k div 100 < 10"
  by auto

lemma hms_string_decode:
  assumes "n < 360000000" and sep: "sep = CHR '','' \<or> sep = CHR ''.''"
  shows "timeToMs (padStart 2 CHR ''0'' (nat_toString (n div 3600000)) @ '':'' @
     padStart 2 CHR ''0'' (nat_toString (n mod 3600000 div 60000)) @ '':'' @
     padStart 2 CHR ''0'' (nat_toString (n mod 60000 div 1000)) @ [sep] @
     padStart 3 CHR ''0'' (nat_toString (n mod 1000))) = Fin (of_nat n)"
proof -
  define h where "h = n div 3600000"
  define m where "m = n mod 3600000 div 60000"
  define s where "s = n mod 60000 div 1000"
  define t where "t = n mod 1000"
  have bounds: "h < 100" "m < 100" "s < 100" "t < 1000"
    using assms by (auto simp: h_def m_def s_def t_def intro: less_mult_imp_div_less)
  let ?enc = "padStart 2 CHR ''0'' (nat_toString h) @ '':'' @ padStart 2 CHR ''0'' (nat_toString m) @ '':'' @
     padStart 2 CHR ''0'' (nat_toString s) @ [sep] @ padStart 3 CHR ''0'' (nat_toString t)"
  have enc: "?enc =
    [digit_char (h div 10), digit_char (h mod 10), CHR '':'', digit_char (m div 10), digit_char (m mod 10), CHR '':'',
     digit_char (s div 10), digit_char (s mod 10), sep,
     digit_char (t div 100), digit_char (t div 10 mod 10), digit_char (t mod 10)]"
    using bounds by (simp add: pad2 pad3)
  have "timeToMs ?enc =
    Fin (of_nat ((10 * (h div 10) + h mod 10) * 3600000 + (10 * (m div 10) + m mod 10) * 60000
        + (10 * (s div 10) + s mod 10) * 1000 + (100 * (t div 100) + 10 * (t div 10 mod 10) + t mod 10)))"
    unfolding enc using bounds sep
    by (subst timeToMs_full_shape) (simp_all add: is_digit_digit_char digit_val_digit_char digit_bounds)
  also have "\<dots> = Fin (of_nat (h * 3600000 + m * 60000 + s * 1000 + t))"
    by (simp only: two_digits three_digits)
  also have "\<dots> = Fin (of_nat n)"
    unfolding h_def m_def s_def t_def by (simp only: hms_decompose)
  finally show ?thesis unfolding h_def m_def s_def t_def .
qed

lemma srt_roundtrip_nat:
  assumes "n < 360000000"
  shows "timeToMs (msToSrt (Fin (of_nat n))) = Fin (of_nat n)"
  using hms_string_decode [OF assms, of "CHR '',''"] by (simp add: msToSrt_nat)

lemma vtt_roundtrip_nat:
  assumes "n < 360000000"
  shows "timeToMs (msToVtt (Fin (of_nat n))) = Fin (of_nat n)"
  using hms_string_decode [OF assms, of "CHR ''.''"] by (simp add: msToVtt_nat)

lemma floor_nat_div: "\<lfloor>(of_nat a :: rat) / numeral k\<rfloor> = int (a div numeral k)"
proof -
  have "\<lfloor>(of_int (int a) :: rat) / of_int (numeral k)\<rfloor> = int a div numeral k"
    by (rule floor_divide_of_int_eq)
  then show ?thesis by (simp add: zdiv_int)
qed

lemma new_Date_nat: "n \<le> 8640000000000000 \<Longrightarrow> new_Date (Fin (of_nat n)) = Fin (of_nat n)"
proof -
  assume "n \<le> 8640000000000000"
  then have "(of_nat n :: rat) \<le> of_nat 8640000000000000" by (simp only: of_nat_le_iff)
  then show ?thesis by (simp add: new_Date_def trunc_rat_def)
qed

lemma div_mod_swap: "(n::nat) div a mod b = n mod (a * b) div a"
proof (cases "a = 0")
  case True then show ?thesis by simp
next
  case False
  have "n mod (a * b) = a * (n div a mod b) + n mod a" by (rule mod_mult2_eq)
  then show ?thesis using False by simp
qed

lemma of_int_mod_nat: "(of_int (int a mod numeral k) :: rat) = of_nat (a mod numeral k)"
proof -
  have "int a mod numeral k = int (a mod numeral k)" by (simp add: zmod_int)
  then show ?thesis by (simp only: of_int_of_nat_eq)
qed

lemma getUTCMinutes_nat: "getUTCMinutes (Fin (of_nat n)) = Fin (of_nat (n mod 3600000 div 60000))"
proof -
  have "n div 60000 mod 60 = n mod 3600000 div 60000" using div_mod_swap [of n 60000 60] by simp
  then show ?thesis by (simp add: getUTCMinutes_def floor_nat_div of_int_mod_nat)
qed

lemma getUTCSeconds_nat: "getUTCSeconds (Fin (of_nat n)) = Fin (of_nat (n mod 60000 div 1000))"
proof -
  have "n div 1000 mod 60 = n mod 60000 div 1000" using div_mod_swap [of n 1000 60] by simp
  then show ?thesis by (simp add: getUTCSeconds_def floor_nat_div of_int_mod_nat)
qed

lemma getUTCMilliseconds_nat: "getUTCMilliseconds (Fin (of_nat n)) = Fin (of_nat (n mod 1000))"
  by (simp add: getUTCMilliseconds_def of_int_mod_nat)

lemma msToSrt_date_nat:
  assumes "n \<le> 8640000000000000"
  shows "msToSrt_date (Fin (of_nat n)) = msToSrt (Fin (of_nat n))"
  by (simp add: msToSrt_date_def msToSrt_nat new_Date_nat [OF assms] getUTCMinutes_nat getUTCSeconds_nat
      getUTCMilliseconds_nat floor_div_nat num_toString_nat)

lemma nearest_10ms_is_nearest:
  "nearest_10ms ms mod 10 = 0 \<and> \<bar>nearest_10ms ms - ms\<bar> \<le> 5"
  unfolding nearest_10ms_def by presburger

lemma round_tenth_nat: "Math_round (js_div (Fin (of_nat n)) (Fin 10)) = Fin (of_nat ((n + 5) div 10))"
proof -
  have e: "(of_nat n :: rat) / 10 + 1 / 2 = (of_nat n + 5) / 10" by (simp add: add_divide_distrib)
  have "\<lfloor>(of_nat n :: rat) / 10 + 1 / 2\<rfloor> = int ((n + 5) div 10)"
    unfolding e using floor_nat_div [of "n + 5" "Num.Bit0 (Num.Bit1 (Num.Bit0 Num.One))"] by simp
  then show ?thesis by (simp add: Math_round_def js_div_def)
qed

lemma msToLrc_nat:
  "msToLrc (Fin (of_nat n)) =
     padStart 2 CHR ''0'' (nat_toString ((n + 5) div 10 * 10 div 60000)) @ '':'' @
     padStart 2 CHR ''0'' (nat_toString ((n + 5) div 10 * 10 mod 60000 div 1000)) @ ''.'' @
     padStart 2 CHR ''0'' (nat_toString ((n + 5) div 10 * 10 mod 1000 div 10))"
proof -
  have r: "js_mul (Math_round (js_div (Fin (of_nat n)) (Fin 10))) (Fin 10) = Fin (of_nat ((n + 5) div 10 * 10))"
    by (simp add: round_tenth_nat js_mul_def)
  show ?thesis
    unfolding msToLrc_def r Let_def
    by (simp only: js_rem_nat floor_div_nat num_toString_nat)
qed

lemma timeToMs_lrc_shape:
  assumes "is_digit a" "is_digit b" "is_digit c" "is_digit d" "is_digit e" "is_digit f"
  shows "timeToMs [a, b, CHR '':'', c, d, CHR ''.'', e, f] =
     Fin (of_nat ((10 * digit_val a + digit_val b) * 60000 + (10 * digit_val c + digit_val d) * 1000
        + (10 * digit_val e + digit_val f) * 10))"
  using assms
  apply (simp add: timeToMs_def trim_def is_digit_not_ws endsWith_def is_digit_neq slice_end_def)
  apply (simp add: re_match_def lrcRe_def rep_counts_def is_digit_def[of "CHR '':''"] is_digit_def[of "CHR ''.''"] is_digit_neq upt_rec)
  apply (simp add: grp_def grp_str_def parseInt10_def trimStart_def is_digit_not_ws strip_sign_def is_digit_neq
      digits_val_def js_mul_def js_add_def)
  done

lemma lrc_roundtrip_nat:
  assumes "n < 5999995"
  shows "timeToMs (msToLrc (Fin (of_nat n))) = Fin (of_nat ((n + 5) div 10 * 10))"
proof -
  define r where "r = (n + 5) div 10 * 10"
  define m where "m = r div 60000"
  define s where "s = r mod 60000 div 1000"
  define c where "c = r mod 1000 div 10"
  have r10: "r mod 10 = 0" by (simp add: r_def)
  have rb: "r < 6000000" using assms unfolding r_def by linarith
  have bounds: "m < 100" "s < 100" "c < 100"
    using rb by (auto simp: m_def s_def c_def intro: less_mult_imp_div_less)
  have enc: "msToLrc (Fin (of_nat n)) =
    [digit_char (m div 10), digit_char (m mod 10), CHR '':'', digit_char (s div 10), digit_char (s mod 10), CHR ''.'',
     digit_char (c div 10), digit_char (c mod 10)]"
    using bounds by (simp add: msToLrc_nat pad2 r_def [symmetric] m_def [symmetric] s_def [symmetric] c_def [symmetric])
  have "timeToMs (msToLrc (Fin (of_nat n))) =
    Fin (of_nat ((10 * (m div 10) + m mod 10) * 60000 + (10 * (s div 10) + s mod 10) * 1000
        + (10 * (c div 10) + c mod 10) * 10))"
    unfolding enc using bounds
    by (subst timeToMs_lrc_shape) (simp_all add: is_digit_digit_char digit_val_digit_char digit_bounds)
  also have "\<dots> = Fin (of_nat (m * 60000 + s * 1000 + c * 10))"
    by (simp only: two_digits)
  also have "m * 60000 + s * 1000 + c * 10 = r"
  proof -
    have a: "r mod 60000 mod 1000 = r mod 1000" by (simp add: mod_mod_cancel)
    have b: "r mod 1000 mod 10 = r mod 10" by (simp add: mod_mod_cancel)
    have "r = r div 60000 * 60000 + r mod 60000" by simp
    moreover have "r mod 60000 = r mod 60000 div 1000 * 1000 + r mod 60000 mod 1000" by simp
    moreover have "r mod 1000 = r mod 1000 div 10 * 10 + r mod 1000 mod 10" by simp
    ultimately show ?thesis using a b r10 unfolding m_def s_def c_def by linarith
  qed
  finally show ?thesis unfolding r_def .
qed

lemma dropWhile_keep: "s \<noteq> [] \<Longrightarrow> \<not> P (hd s) \<Longrightarrow> dropWhile P (s @ t) = s @ t"
  by (cases s) simp_all

lemma dropWhile_append_keep: "q \<noteq> [] \<Longrightarrow> \<not> P (hd q) \<Longrightarrow> dropWhile P (p @ q) = dropWhile P p @ q"
  by (induction p) (simp_all add: dropWhile_keep [of q P "[]", simplified])

lemma trim_append_suffix:
  assumes "q \<noteq> []" "\<not> is_ws (hd q)" "\<not> is_ws (last q)"
  shows "trim (p @ q) = dropWhile is_ws p @ q"
proof -
  have a: "dropWhile is_ws (p @ q) = dropWhile is_ws p @ q"
    using assms by (simp add: dropWhile_append_keep)
  have "rev q \<noteq> []" "\<not> is_ws (hd (rev q))" using assms by (simp_all add: hd_rev)
  then have "dropWhile is_ws (rev q @ rev (dropWhile is_ws p)) = rev q @ rev (dropWhile is_ws p)"
    by (rule dropWhile_keep)
  then show ?thesis by (simp add: trim_def a)
qed

lemma parseFloat_trimStart: "parseFloat (dropWhile is_ws p) = parseFloat p"
  by (simp add: parseFloat_def trimStart_def)

lemma endsWith_snoc: "endsWith (x @ [c]) (q @ [c]) = endsWith x q"
  by (auto simp: endsWith_def)

lemma endsWith_single: "endsWith s [c] \<longleftrightarrow> s \<noteq> [] \<and> last s = c"
  by (cases s rule: rev_cases) (auto simp: endsWith_def)

lemma dropWhile_last: "dropWhile P p \<noteq> [] \<Longrightarrow> last (dropWhile P p) = last p"
  by (induction p) (auto split: if_splits)

lemma endsWith_dropWhile:
  assumes "\<not> P c"
  shows "endsWith (dropWhile P p) [c] = endsWith p [c]"
proof
  assume "endsWith (dropWhile P p) [c]"
  then have n: "dropWhile P p \<noteq> []" and l: "last (dropWhile P p) = c" by (simp_all add: endsWith_single)
  from n have "p \<noteq> []" by auto
  with n l show "endsWith p [c]" by (simp add: endsWith_single dropWhile_last)
next
  assume "endsWith p [c]"
  then have n: "p \<noteq> []" and l: "last p = c" by (simp_all add: endsWith_single)
  then have "c \<in> set p" using last_in_set by blast
  with assms have "dropWhile P p \<noteq> []" by (auto simp: dropWhile_eq_Nil_conv)
  with l show "endsWith (dropWhile P p) [c]" by (simp add: endsWith_single dropWhile_last)
qed

lemma timeToMs_ms_suffix: "timeToMs (p @ ''ms'') = parseFloat p"
proof -
  have t: "trim (p @ ''ms'') = dropWhile is_ws p @ ''ms''"
    by (rule trim_append_suffix) (simp_all add: is_ws_def)
  show ?thesis
    by (simp add: timeToMs_def t endsWith_def slice_end_def parseFloat_trimStart)
qed

lemma timeToMs_s_suffix:
  assumes "\<not> endsWith p ''m''"
  shows "timeToMs (p @ ''s'') = js_mul (parseFloat p) (Fin 1000)"
proof -
  have t: "trim (p @ ''s'') = dropWhile is_ws p @ ''s''"
    by (rule trim_append_suffix) (simp_all add: is_ws_def)
  have "endsWith (dropWhile is_ws p @ ''s'') (''m'' @ ''s'') = endsWith p ''m''"
    by (simp only: endsWith_snoc) (simp add: endsWith_dropWhile is_ws_def)
  with assms have m: "\<not> endsWith (dropWhile is_ws p @ ''s'') ''ms''" by simp
  have s: "endsWith (dropWhile is_ws p @ ''s'') ''s''" by (simp add: endsWith_single)
  have sl: "slice_end (dropWhile is_ws p @ ''s'') (Suc 0) = dropWhile is_ws p" by (simp add: slice_end_def)
  show ?thesis
    by (simp add: timeToMs_def t m s sl parseFloat_trimStart)
qed


lemmas timeToMs_eval1 = timeToMs_def trim_def is_digit_not_ws endsWith_def is_digit_neq slice_end_def
lemmas timeToMs_eval2 = re_match_def lrcRe_def fullRe_def rep_counts_def is_digit_neq upt_rec
lemmas timeToMs_eval3 = grp_def grp_str_def parseInt10_def trimStart_def is_digit_not_ws strip_sign_def is_digit_neq
      digits_val_def js_mul_def js_add_def

lemma not_digit_punct: "\<not> is_digit CHR '':''" "\<not> is_digit CHR ''.''" "\<not> is_digit CHR '',''"
  by (simp_all add: is_digit_def)

lemma timeToMs_colon_no_hours:
  assumes "list_all is_digit m" "length m = 1 \<or> length m = 2"
    and "list_all is_digit s" "length s = 1 \<or> length s = 2"
    and "list_all is_digit f" "length f = 1 \<or> length f = 2 \<or> length f = 3"
    and "sep = CHR ''.'' \<or> sep = CHR '',''"
  shows "timeToMs (m @ '':'' @ s @ [sep] @ f) =
     Fin (of_nat (digits_val m * 60000 + digits_val s * 1000
        + digits_val f * (if length f = 1 then 100 else if length f = 2 then 10 else 1)))"
  using assms
  apply (elim disjE)
  apply (auto simp: length_Suc_conv numeral_2_eq_2 numeral_3_eq_3)
  apply (simp_all add: timeToMs_eval1)
  apply (simp_all add: timeToMs_eval2 not_digit_punct)
  apply (simp_all add: timeToMs_eval3)
  done

lemma timeToMs_colon_hours:
  assumes "list_all is_digit h" "length h = 1 \<or> length h = 2"
    and "list_all is_digit m" "length m = 1 \<or> length m = 2"
    and "list_all is_digit s" "length s = 1 \<or> length s = 2"
    and "list_all is_digit f" "length f = 1 \<or> length f = 2 \<or> length f = 3"
    and "sep = CHR ''.'' \<or> sep = CHR '',''"
  shows "timeToMs (h @ '':'' @ m @ '':'' @ s @ [sep] @ f) =
     Fin (of_nat (digits_val h * 3600000 + digits_val m * 60000 + digits_val s * 1000
        + digits_val f * (if length f = 1 then 100 else if length f = 2 then 10 else 1)))"
  using assms
  apply (elim disjE)
  apply (auto simp: length_Suc_conv numeral_2_eq_2 numeral_3_eq_3)
  apply (simp_all add: timeToMs_eval1)
  apply (simp_all add: timeToMs_eval2 not_digit_punct)
  apply (simp_all add: timeToMs_eval3)
  done


lemma digit_str_12: "digit_str 1 2 s \<Longrightarrow> list_all is_digit s \<and> (length s = 1 \<or> length s = 2)"
  by (auto simp: digit_str_def)

lemma digit_str_13: "digit_str 1 3 s \<Longrightarrow> list_all is_digit s \<and> (length s = 1 \<or> length s = 2 \<or> length s = 3)"
  by (auto simp: digit_str_def)

lemma endsWith_iff: "endsWith s p \<longleftrightarrow> (\<exists>x. s = x @ p)"
proof
  assume "endsWith s p"
  then have "s = take (length s - length p) s @ p"
    by (simp add: endsWith_def) (metis append_take_drop_id)
  then show "\<exists>x. s = x @ p" ..
next
  assume "\<exists>x. s = x @ p"
  then show "endsWith s p" by (auto simp: endsWith_def)
qed

lemma timeToMs_no_rule:
  assumes "\<not> endsWith (trim t) ''s''" "re_match lrcRe (trim t) = None"
    "re_match fullRe (trim t) = None" "re_match numRe (trim t) = None"
  shows "timeToMs t = Fin 0"
proof -
  have "\<not> endsWith (trim t) ''ms''"
  proof
    assume "endsWith (trim t) ''ms''"
    then obtain x where "trim t = x @ ''ms''" unfolding endsWith_iff ..
    then have "trim t = (x @ ''m'') @ ''s''" by simp
    then have "endsWith (trim t) ''s''" unfolding endsWith_iff ..
    with assms(1) show False ..
  qed
  then show ?thesis using assms by (simp add: timeToMs_def)
qed

lemma trim_decomp: "\<exists>w. trimStart c = trim c @ w \<and> (\<forall>x\<in>set w. is_ws x)"
proof -
  let ?t = "trimStart c"
  have "rev (dropWhile is_ws (rev ?t)) @ rev (takeWhile is_ws (rev ?t)) = ?t"
    by (simp only: rev_append [symmetric] takeWhile_dropWhile_id rev_rev_ident)
  then have "?t = trim c @ rev (takeWhile is_ws (rev ?t))"
    by (simp add: trim_def trimStart_def)
  moreover have "\<forall>x\<in>set (rev (takeWhile is_ws (rev ?t))). is_ws x"
    by (auto dest: set_takeWhileD)
  ultimately show ?thesis by blast
qed

lemma startsWith_trim:
  assumes "\<forall>x\<in>set p. \<not> is_ws x"
  shows "startsWith (trim c) p = startsWith (trimStart c) p"
proof -
  obtain w where t: "trimStart c = trim c @ w" and w: "\<forall>x\<in>set w. is_ws x"
    using trim_decomp by blast
  show ?thesis
  proof
    assume "startsWith (trim c) p"
    then have tk: "take (length p) (trim c) = p" by (simp add: startsWith_def)
    then have "length (take (length p) (trim c)) = length p" by (simp only:)
    then have "length p \<le> length (trim c)" by simp
    with tk show "startsWith (trimStart c) p"
      by (simp add: startsWith_def t)
  next
    assume "startsWith (trimStart c) p"
    then have e: "take (length p) (trim c) @ take (length p - length (trim c)) w = p"
      by (simp add: startsWith_def t)
    have "take (length p - length (trim c)) w = []"
    proof (rule ccontr)
      assume "take (length p - length (trim c)) w \<noteq> []"
      then obtain x where x: "x \<in> set (take (length p - length (trim c)) w)"
        by (meson last_in_set)
      then have "x \<in> set w" by (rule in_set_takeD)
      moreover from x e have "x \<in> set p" by (metis Un_iff set_append)
      ultimately show False using w assms by blast
    qed
    with e show "startsWith (trim c) p" by (simp add: startsWith_def)
  qed
qed


lemma leading_trim:
  assumes "\<forall>x\<in>set p. \<not> is_ws x"
  shows "startsWith (trim c) p = leading p c"
  using startsWith_trim [OF assms] by (simp add: leading_def)

lemma lrcSniff_bracket: "re_match lrcSniffRe content \<noteq> None \<Longrightarrow> startsWith content ''[''"
  by (cases content) (auto simp: re_match_def lrcSniffRe_def startsWith_def split: if_splits)

lemma startsWith_raw_trim:
  assumes "startsWith content [c]" "\<not> is_ws c"
  shows "startsWith (trimStart content) [c]"
  using assms by (cases content) (auto simp: startsWith_def trimStart_def)

lemma leading_timestamp_bracket: "leading_timestamp content \<Longrightarrow> leading ''['' content"
  by (auto simp: leading_timestamp_def leading_def startsWith_def split: list.splits)

lemma ext_format_eval:
  "ext_format f = (if endsWith f ''.lrc'' then Some LRC
      else if endsWith f ''.srt'' then Some SRT
      else if endsWith f ''.vtt'' then Some VTT
      else if endsWith f ''.xml'' \<or> endsWith f ''.ttml'' then Some TTML
      else if endsWith f ''.json'' then Some JSON
      else if endsWith f ''.txt'' then Some TXT else None)"
  by (simp add: ext_format_def ext_table_def)

lemma sniff_spec_eval:
  "sniff_spec c = (if leading ''{'' c \<or> leading ''['' c then JSON
      else if leading ''WEBVTT'' c then VTT
      else if str_includes c ''http://www.w3.org/ns/ttml'' then TTML
      else if leading_timestamp c then LRC else SRT)"
  by (simp add: sniff_spec_def sniff_rules_def)

lemma sniff_code_eq_spec:
  "(let trimmed = trim content in
        if startsWith trimmed ''{'' \<or> startsWith trimmed ''['' then JSON
        else if startsWith trimmed ''WEBVTT'' then VTT
        else if str_includes content ''http://www.w3.org/ns/ttml'' then TTML
        else if re_match lrcSniffRe content \<noteq> None then LRC
        else SRT) = sniff_spec content"
proof -
  have l: "startsWith (trim content) ''{'' = leading ''{'' content"
    "startsWith (trim content) ''['' = leading ''['' content"
    "startsWith (trim content) ''WEBVTT'' = leading ''WEBVTT'' content"
    by (rule leading_trim, simp add: is_ws_def)+
  have a: "re_match lrcSniffRe content = None" if "\<not> leading ''['' content"
  proof (rule ccontr)
    assume "re_match lrcSniffRe content \<noteq> None"
    then have "startsWith content ''[''" by (rule lrcSniff_bracket)
    then have "startsWith (trimStart content) ''[''"
      by (rule startsWith_raw_trim) (simp add: is_ws_def)
    with that show False by (simp add: leading_def)
  qed
  have b: "\<not> leading ''['' content \<Longrightarrow> \<not> leading_timestamp content"
    using leading_timestamp_bracket by blast
  show ?thesis
    unfolding Let_def l sniff_spec_eval using a b by auto
qed

lemma detectFormat_eq_spec: "detectFormat filename content = detectFormat_spec filename content"
  unfolding detectFormat_def detectFormat_spec_def sniff_code_eq_spec ext_format_eval by simp

text \<open>
  A consequence of the order of the content rules: a bracketed timestamp begins with \<open>[\<close>,
  which the first rule takes for JSON, so that the detector answers LRC for the extension
  \<open>.lrc\<close> only.
\<close>

lemma detectFormat_LRC_by_extension_only:
  assumes "detectFormat filename content = LRC"
  shows "endsWith filename ''.lrc''"
proof -
  have "sniff_spec content \<noteq> LRC"
    using leading_timestamp_bracket [of content] by (auto simp: sniff_spec_eval)
  with assms show ?thesis
    by (auto simp: detectFormat_eq_spec detectFormat_spec_def ext_format_eval split: if_splits)
qed

lemma infer_ends_length: "length (infer_ends cs) = length cs"
  by (induction cs rule: infer_ends.induct) simp_all

lemma infer_ends_start: "i < length cs \<Longrightarrow> cue_start (infer_ends cs ! i) = cue_start (cs ! i)"
proof (induction cs arbitrary: i rule: infer_ends.induct)
  case (1 c d cs)
  then show ?case by (cases i) simp_all
qed simp_all

lemma infer_ends_end: "Suc i < length cs \<Longrightarrow> cue_end (infer_ends cs ! i) = cue_start (cs ! Suc i)"
proof (induction cs arbitrary: i rule: infer_ends.induct)
  case (1 c d cs)
  show ?case
  proof (cases i)
    case 0
    then show ?thesis by simp
  next
    case (Suc k)
    with 1 show ?thesis by simp
  qed
qed simp_all

lemma infer_ends_nil: "infer_ends cs = [] \<longleftrightarrow> cs = []"
  by (induction cs rule: infer_ends.induct) simp_all

lemma infer_ends_last: "cs \<noteq> [] \<Longrightarrow> last (infer_ends cs) = last cs"
  by (induction cs rule: infer_ends.induct) (simp_all add: infer_ends_nil)

lemma lrc_line_end: "lrc_line index line = Some c \<Longrightarrow> cue_end c = js_add (cue_start c) (Fin 3000)"
  by (auto simp: lrc_line_def Let_def split: option.splits)

lemma lrc_lines_end: "c \<in> set (lrc_lines index ls) \<Longrightarrow> cue_end c = js_add (cue_start c) (Fin 3000)"
  by (induction ls arbitrary: index) (auto split: option.splits dest: lrc_line_end)

lemma timeToMs_zero: "timeToMs ''0'' = Fin 0" by code_simp
lemma timeToMs_empty: "timeToMs [] = Fin 0" by (simp add: timeToMs_def)

lemma ttml_cue_start: "cue_start (ttml_cue i p) = ttml_start_spec p"
  by (auto simp: ttml_cue_def ttml_start_spec_def attr_or_def timeToMs_zero timeToMs_empty Let_def split: option.splits)

lemma ttml_cue_end: "cue_end (ttml_cue i p) = ttml_end_amended p"
  by (auto simp: ttml_cue_def ttml_end_amended_def ttml_start_spec_def nonempty_attr_def attr_or_def
      timeToMs_zero timeToMs_empty Let_def split: option.splits)

lemma parseTTML_nth:
  assumes "i < length (getElementsByTagName (dp content) ''p'')"
  shows "cues (parseTTML dp content) ! i = ttml_cue i (getElementsByTagName (dp content) ''p'' ! i)"
  using assms by (simp add: parseTTML_def Let_def nth_enumerate_eq)

lemma parseTTML_length:
  "length (cues (parseTTML dp content)) = length (getElementsByTagName (dp content) ''p'')"
  by (simp add: parseTTML_def Let_def)

lemma num_or_with_cue_start:
  "num_or (word_start (with_cue_start cue w)) (cue_start cue) = num_or (word_start w) (cue_start cue)"
  by (auto simp: with_cue_start_def num_or_def js_truthy_def)

lemma with_cue_start_fields:
  "word_text (with_cue_start cue w) = word_text w" "word_end (with_cue_start cue w) = word_end w"
  by (simp_all add: with_cue_start_def)

lemma fill_word_starts_fields:
  "cue_start (fill_word_starts cue) = cue_start cue" "cue_end (fill_word_starts cue) = cue_end cue"
  "cue_text (fill_word_starts cue) = cue_text cue" "has_words (fill_word_starts cue) = has_words cue"
  "words_of (fill_word_starts cue) = map (with_cue_start cue) (words_of cue)"
  by (simp_all add: fill_word_starts_def has_words_def words_of_def split: option.splits)

lemma ttml_span_with_cue_start: "ttml_span cue (with_cue_start cue w) = ttml_span cue w"
  by (simp add: ttml_span_def num_or_with_cue_start with_cue_start_fields)

lemma num_or_with_default_end:
  "num_or (word_end (with_default_end cue w)) (js_add (num_or (word_start w) (cue_start cue)) (Fin 300))
   = num_or (word_end w) (js_add (num_or (word_start w) (cue_start cue)) (Fin 300))"
  by (auto simp: with_default_end_def num_or_def js_truthy_def)

lemma with_default_end_fields:
  "word_text (with_default_end cue w) = word_text w" "word_start (with_default_end cue w) = word_start w"
  by (simp_all add: with_default_end_def)

lemma ttml_span_with_default_end: "ttml_span cue (with_default_end cue w) = ttml_span cue w"
  by (simp add: ttml_span_def num_or_with_default_end with_default_end_fields)

lemma fill_word_ends_fields:
  "cue_start (fill_word_ends cue) = cue_start cue" "cue_end (fill_word_ends cue) = cue_end cue"
  "cue_text (fill_word_ends cue) = cue_text cue" "has_words (fill_word_ends cue) = has_words cue"
  "words_of (fill_word_ends cue) = map (with_default_end cue) (words_of cue)"
  by (simp_all add: fill_word_ends_def has_words_def words_of_def split: option.splits)

lemma lrc_word_tag_fill: "lrc_word_tag (fill_word_starts cue) (with_cue_start cue w) = lrc_word_tag cue w"
  by (simp add: lrc_word_tag_def fill_word_starts_fields num_or_with_cue_start with_cue_start_fields)

lemma vtt_word_tag_fill: "vtt_word_tag (fill_word_starts cue) (with_cue_start cue w) = vtt_word_tag cue w"
  by (simp add: vtt_word_tag_def fill_word_starts_fields num_or_with_cue_start with_cue_start_fields)

lemma ttml_span_fill_starts: "ttml_span (fill_word_starts cue) (with_cue_start cue w) = ttml_span cue w"
  using ttml_span_with_cue_start [of cue w] by (simp add: ttml_span_def fill_word_starts_fields)

lemma ttml_span_fill_ends: "ttml_span (fill_word_ends cue) (with_default_end cue w) = ttml_span cue w"
  using ttml_span_with_default_end [of cue w] by (simp add: ttml_span_def fill_word_ends_fields)

lemma lrc_cue_line_fill: "lrc_cue_line True (fill_word_starts cue) = lrc_cue_line True cue"
  by (cases "has_words cue")
     (simp_all add: lrc_cue_line_def fill_word_starts_fields comp_def lrc_word_tag_fill)

lemma vtt_cue_block_fill: "vtt_cue_block True (fill_word_starts cue) = vtt_cue_block True cue"
  by (cases "has_words cue")
     (simp_all add: vtt_cue_block_def fill_word_starts_fields comp_def vtt_word_tag_fill)

lemma ttml_cue_p_fill_starts: "ttml_cue_p True (fill_word_starts cue) = ttml_cue_p True cue"
  by (cases "has_words cue")
     (simp_all add: ttml_cue_p_def fill_word_starts_fields comp_def ttml_span_fill_starts)

lemma ttml_cue_p_fill_ends: "ttml_cue_p True (fill_word_ends cue) = ttml_cue_p True cue"
  by (cases "has_words cue")
     (simp_all add: ttml_cue_p_def fill_word_ends_fields comp_def ttml_span_fill_ends)

lemma stringifyLRC_fill: "stringifyLRC (map fill_word_starts cs) True md = stringifyLRC cs True md"
  by (simp add: stringifyLRC_def comp_def lrc_cue_line_fill)

lemma stringifyVTT_fill: "stringifyVTT (map fill_word_starts cs) True md = stringifyVTT cs True md"
  by (simp add: stringifyVTT_def comp_def vtt_cue_block_fill)

lemma stringifyTTML_fill_starts: "stringifyTTML (map fill_word_starts cs) True = stringifyTTML cs True"
  by (simp add: stringifyTTML_def comp_def ttml_cue_p_fill_starts)

lemma stringifyTTML_fill_ends: "stringifyTTML (map fill_word_ends cs) True = stringifyTTML cs True"
  by (simp add: stringifyTTML_def comp_def ttml_cue_p_fill_ends)

lemma lrc_word_tag_fallback:
  assumes "word_start w = None \<or> word_start w = Some (Fin 0)"
  shows "lrc_word_tag cue w = ''<'' @ msToLrc (cue_start cue) @ ''>'' @ word_text w"
  using assms by (auto simp: lrc_word_tag_def num_or_def js_truthy_def)

lemma vtt_word_tag_fallback:
  assumes "word_start w = None \<or> word_start w = Some (Fin 0)"
  shows "vtt_word_tag cue w = ''<'' @ msToVtt (cue_start cue) @ ''>'' @ word_text w"
  using assms by (auto simp: vtt_word_tag_def num_or_def js_truthy_def)

lemma ttml_span_start_fallback:
  assumes "word_start w = None \<or> word_start w = Some (Fin 0)"
  shows "ttml_span cue w = ttml_span cue (w\<lparr>word_start := Some (cue_start cue)\<rparr>)"
  using assms ttml_span_with_cue_start [of cue w] by (simp add: with_cue_start_def)

lemma ttml_span_end_fallback:
  assumes "word_end w = None \<or> word_end w = Some (Fin 0)"
  shows "ttml_span cue w
       = ttml_span cue (w\<lparr>word_end := Some (js_add (num_or (word_start w) (cue_start cue)) (Fin 300))\<rparr>)"
  using assms ttml_span_with_default_end [of cue w] by (simp add: with_default_end_def)

text \<open>
  The \<open>catch\<close> clause of \<open>parseJSON\<close> also takes the errors of the \<open>try\<close> body: a
  document that is JSON but makes the body throw, such as \<open>null\<close>, gives the empty result
  as well.
\<close>

lemma parseJSON_body_error:
  assumes "JSON_parse content = Inr v" and "parseJSON_body conv v = Inl e"
  shows "parseJSON JSON_parse conv content = empty_json_result"
  using assms by (simp add: parseJSON_def bind_err_def)

lemma parseJSON_null: "parseJSON sample_JSON_parse conv ''null'' = empty_json_result"
  by (rule parseJSON_body_error [where v = JNull and e = TypeError])
     (simp_all add: sample_JSON_parse_def parseJSON_body_def get_prop_def bind_err_def)

section \<open>The claims\<close>

text \<open>
  C1. Encoding a whole number of milliseconds of less than 24 hours as an SRT timestamp
  and decoding the result gives the number back, and so does the VTT timestamp:
  for every integer \<open>ms\<close> in \<open>[0, 86400000)\<close>, \<open>timeToMs(msToSrt(ms)) = ms\<close> and
  \<open>timeToMs(msToVtt(ms)) = ms\<close>.
\<close>

theorem C1_srt_vtt_round_trip:
  fixes ms :: int
  assumes "0 \<le> ms" and "ms < 86400000"
  shows "timeToMs (msToSrt (Fin (of_int ms))) = Fin (of_int ms)
       \<and> timeToMs (msToVtt (Fin (of_int ms))) = Fin (of_int ms)"
proof -
  from assms have n: "nat ms < 360000000" and ms: "(of_int ms :: rat) = of_nat (nat ms)"
    by simp_all
  show ?thesis
    unfolding ms using srt_roundtrip_nat [OF n] vtt_roundtrip_nat [OF n] by simp
qed

theorem C1_srt_vtt_round_trip_witness:
  "(0::int) \<le> 3661001 \<and> (3661001::int) < 86400000
   \<and> timeToMs (msToSrt (Fin 3661001)) = Fin 3661001
   \<and> timeToMs (msToVtt (Fin 3661001)) = Fin 3661001"
  using C1_srt_vtt_round_trip [of 3661001] by simp

text \<open>
  C2, as the code has it. For every integer \<open>ms\<close> in \<open>[0, 5999995)\<close>, decoding the LRC
  timestamp of \<open>ms\<close> gives \<open>ms\<close> rounded to the nearest multiple of 10 ms. The bound is
  the last value that still rounds below 100 minutes: the decoder accepts one or two
  digits of minutes only.
\<close>

theorem C2_lrc_round_trip_amended:
  fixes ms :: int
  assumes "0 \<le> ms" and "ms < 5999995"
  shows "timeToMs (msToLrc (Fin (of_int ms))) = Fin (of_int (nearest_10ms ms))"
proof -
  from assms have n: "nat ms < 5999995" and ms: "(of_int ms :: rat) = of_nat (nat ms)"
    by simp_all
  have "nearest_10ms ms = int ((nat ms + 5) div 10 * 10)"
    using assms by (simp add: nearest_10ms_def zdiv_int)
  then have "(of_int (nearest_10ms ms) :: rat) = of_nat ((nat ms + 5) div 10 * 10)"
    by (simp only: of_int_of_nat_eq)
  then show ?thesis
    unfolding ms using lrc_roundtrip_nat [OF n] by simp
qed

theorem C2_lrc_round_trip_amended_witness:
  "(0::int) \<le> 83456 \<and> (83456::int) < 5999995
   \<and> timeToMs (msToLrc (Fin 83456)) = Fin 83460"
  using C2_lrc_round_trip_amended [of 83456] by (simp add: nearest_10ms_def)

text \<open>
  C2 as stated, with the bound \<open>6000000\<close>, fails in the last five milliseconds of the range:
  \<open>5999999\<close> rounds to \<open>6000000\<close>, which is encoded with three digits of minutes as
  \<open>100:00.00\<close>; no rule of the decoder matches that string, and it returns \<open>0\<close>.
\<close>

theorem C2_lrc_round_trip_counterexample:
  "(0::int) \<le> 5999999 \<and> (5999999::int) < 6000000
   \<and> nearest_10ms 5999999 = 6000000
   \<and> msToLrc (Fin (of_int 5999999)) = ''100:00.00''
   \<and> timeToMs (msToLrc (Fin (of_int 5999999))) = Fin 0
   \<and> timeToMs (msToLrc (Fin (of_int 5999999))) \<noteq> Fin (of_int (nearest_10ms 5999999))"
proof -
  have a: "msToLrc (Fin (of_int 5999999)) = ''100:00.00''" by code_simp
  have b: "timeToMs ''100:00.00'' = Fin 0" by code_simp
  have c: "nearest_10ms 5999999 = 6000000" by (simp add: nearest_10ms_def)
  show ?thesis unfolding a b c by simp
qed

text \<open>
  C9. Below 24 hours the two SRT encoders agree: for every integer \<open>ms\<close> in
  \<open>[0, 86400000)\<close>, the encoder that reads the fields of a date and the encoder that
  divides return the same string.
\<close>

theorem C9_srt_encoders_agree:
  fixes ms :: int
  assumes "0 \<le> ms" and "ms < 86400000"
  shows "msToSrt_date (Fin (of_int ms)) = msToSrt (Fin (of_int ms))"
proof -
  from assms have n: "nat ms \<le> 8640000000000000" and ms: "(of_int ms :: rat) = of_nat (nat ms)"
    by simp_all
  show ?thesis unfolding ms by (rule msToSrt_date_nat [OF n])
qed

theorem C9_srt_encoders_agree_witness:
  "(0::int) \<le> 3600000 \<and> (3600000::int) < 86400000
   \<and> msToSrt_date (Fin 3600000) = msToSrt (Fin 3600000)"
  using C9_srt_encoders_agree [of 3600000] by simp

text \<open>
  C3. The claim is that \<open>timeToMs\<close> returns a finite number for every string, and \<open>0\<close>
  where no rule applies. The second half holds (\<open>timeToMs_no_rule\<close>). The first fails
  on the two suffix rules, which pass the text before the suffix to \<open>parseFloat\<close>
  unchecked: \<open>timeToMs("xs")\<close> and \<open>timeToMs("ms")\<close> are \<open>NaN\<close>, and
  \<open>timeToMs("Infinitys")\<close> is \<open>Infinity\<close>. The rule for a bare number tests its input
  against a pattern before it calls \<open>parseFloat\<close>; the suffix rules do not.
\<close>

theorem C3_timeToMs_not_a_number:
  "timeToMs ''xs'' = NaN \<and> timeToMs ''ms'' = NaN \<and> timeToMs ''Infinitys'' = PosInf"
proof (intro conjI)
  show "timeToMs ''xs'' = NaN" by code_simp
  show "timeToMs ''ms'' = NaN" by code_simp
  show "timeToMs ''Infinitys'' = PosInf" by code_simp
qed

text \<open>
  C4. The scaling rules of \<open>timeToMs\<close>: an input that ends in \<open>ms\<close> is the \<open>parseFloat\<close> of
  what precedes the suffix; an input that ends in \<open>s\<close> (and not in \<open>ms\<close>) is that value
  times 1000; in the colon formats, without and with hours, with \<open>.\<close> or \<open>,\<close> before the
  fraction, a fraction of one digit counts hundreds of milliseconds, of two digits tens,
  of three digits units. In particular \<open>timeToMs("500ms") = 500\<close>,
  \<open>timeToMs("10.5s") = 10500\<close> and \<open>timeToMs("01:23.45") = 83450\<close>.
\<close>

theorem C4_timeToMs_scaling:
  "(\<forall>p. timeToMs (p @ ''ms'') = parseFloat p)
   \<and> (\<forall>p. \<not> endsWith p ''m'' \<longrightarrow> timeToMs (p @ ''s'') = js_mul (parseFloat p) (Fin 1000))
   \<and> (\<forall>m s f sep. digit_str 1 2 m \<and> digit_str 1 2 s \<and> digit_str 1 3 f \<and> (sep = CHR ''.'' \<or> sep = CHR '','')
        \<longrightarrow> timeToMs (m @ '':'' @ s @ [sep] @ f)
            = Fin (of_nat (digits_val m * 60000 + digits_val s * 1000 + digits_val f * frac_scale f)))
   \<and> (\<forall>h m s f sep. digit_str 1 2 h \<and> digit_str 1 2 m \<and> digit_str 1 2 s \<and> digit_str 1 3 f
          \<and> (sep = CHR ''.'' \<or> sep = CHR '','')
        \<longrightarrow> timeToMs (h @ '':'' @ m @ '':'' @ s @ [sep] @ f)
            = Fin (of_nat (digits_val h * 3600000 + digits_val m * 60000 + digits_val s * 1000
                + digits_val f * frac_scale f)))
   \<and> timeToMs ''500ms'' = Fin 500
   \<and> timeToMs ''10.5s'' = Fin 10500
   \<and> timeToMs ''01:23.45'' = Fin 83450"
proof (intro conjI allI impI)
  fix p show "timeToMs (p @ ''ms'') = parseFloat p" by (rule timeToMs_ms_suffix)
next
  fix p assume "\<not> endsWith p ''m''"
  then show "timeToMs (p @ ''s'') = js_mul (parseFloat p) (Fin 1000)" by (rule timeToMs_s_suffix)
next
  fix m s f sep
  assume a: "digit_str 1 2 m \<and> digit_str 1 2 s \<and> digit_str 1 3 f \<and> (sep = CHR ''.'' \<or> sep = CHR '','')"
  then show "timeToMs (m @ '':'' @ s @ [sep] @ f)
            = Fin (of_nat (digits_val m * 60000 + digits_val s * 1000 + digits_val f * frac_scale f))"
    unfolding frac_scale_def
    using digit_str_12 [of m] digit_str_12 [of s] digit_str_13 [of f]
    by (intro timeToMs_colon_no_hours) simp_all
next
  fix h m s f sep
  assume a: "digit_str 1 2 h \<and> digit_str 1 2 m \<and> digit_str 1 2 s \<and> digit_str 1 3 f
          \<and> (sep = CHR ''.'' \<or> sep = CHR '','')"
  then show "timeToMs (h @ '':'' @ m @ '':'' @ s @ [sep] @ f)
            = Fin (of_nat (digits_val h * 3600000 + digits_val m * 60000 + digits_val s * 1000
                + digits_val f * frac_scale f))"
    unfolding frac_scale_def
    using digit_str_12 [of h] digit_str_12 [of m] digit_str_12 [of s] digit_str_13 [of f]
    by (intro timeToMs_colon_hours) simp_all
next
  show "timeToMs ''500ms'' = Fin 500" by code_simp
  show "timeToMs ''10.5s'' = Fin 10500" by code_simp
  show "timeToMs ''01:23.45'' = Fin 83450" by code_simp
qed

theorem C4_timeToMs_scaling_witness:
  "\<not> endsWith ''1.5'' ''m'' \<and> timeToMs ''1.5s'' = Fin 1500
   \<and> digit_str 1 2 ''1'' \<and> digit_str 1 2 ''02'' \<and> digit_str 1 3 ''5''
   \<and> timeToMs ''1:02.5'' = Fin 62500
   \<and> digit_str 1 2 ''01'' \<and> digit_str 1 3 ''25''
   \<and> timeToMs ''01:1:02,25'' = Fin 3662250"
proof -
  note c = C4_timeToMs_scaling
  note c2 = c [THEN conjunct2, THEN conjunct1, rule_format]
  note c3 = c [THEN conjunct2, THEN conjunct2, THEN conjunct1, rule_format]
  note c4 = c [THEN conjunct2, THEN conjunct2, THEN conjunct2, THEN conjunct1, rule_format]
  have e: "\<not> endsWith ''1.5'' ''m''" by (simp add: endsWith_def)
  have d: "digit_str 1 2 ''1''" "digit_str 1 2 ''02''" "digit_str 1 3 ''5''" "digit_str 1 2 ''01''" "digit_str 1 3 ''25''"
    by (simp_all add: digit_str_def is_digit_def)
  have pf: "parseFloat ''1.5'' = Fin (3 / 2)" by code_simp
  have 1: "timeToMs ''1.5s'' = Fin 1500"
    using c2 [of "''1.5''", OF e] by (simp add: pf js_mul_def)
  have 2: "timeToMs ''1:02.5'' = Fin 62500"
    using c3 [of "''1''" "''02''" "''5''" "CHR ''.''"] d
    by (simp add: digits_val_def digit_val_def frac_scale_def)
  have 3: "timeToMs ''01:1:02,25'' = Fin 3662250"
    using c4 [of "''01''" "''1''" "''02''" "''25''" "CHR '',''"] d
    by (simp add: digits_val_def digit_val_def frac_scale_def)
  from e d 1 2 3 show ?thesis by simp
qed



text \<open>
  C7. The end times of the cues of an LRC document: the end of every cue but the last is
  the start of the next cue, and the end of the last cue is its own start plus 3000 ms.
\<close>

theorem C7_lrc_end_times:
  "(\<forall>i. Suc i < length (cues (parseLRC content)) \<longrightarrow>
        cue_end (cues (parseLRC content) ! i) = cue_start (cues (parseLRC content) ! Suc i))
   \<and> (cues (parseLRC content) \<noteq> [] \<longrightarrow>
        cue_end (last (cues (parseLRC content))) = js_add (cue_start (last (cues (parseLRC content)))) (Fin 3000))"
proof -
  define cs where "cs = lrc_lines 0 (split_lines content)"
  have p: "cues (parseLRC content) = infer_ends cs" by (simp add: parseLRC_def cs_def)
  have a: "cue_end (infer_ends cs ! i) = cue_start (infer_ends cs ! Suc i)" if "Suc i < length (infer_ends cs)" for i
    using that by (simp add: infer_ends_length infer_ends_end infer_ends_start)
  have b: "cue_end (last (infer_ends cs)) = js_add (cue_start (last (infer_ends cs))) (Fin 3000)" if "infer_ends cs \<noteq> []"
  proof -
    from that have n: "cs \<noteq> []" by (simp add: infer_ends_nil)
    then have "last cs \<in> set cs" by simp
    then have "cue_end (last cs) = js_add (cue_start (last cs)) (Fin 3000)"
      unfolding cs_def by (rule lrc_lines_end)
    then show ?thesis by (simp add: infer_ends_last [OF n])
  qed
  show ?thesis unfolding p using a b by blast
qed

theorem C7_lrc_end_times_witness:
  "length (cues (parseLRC lrc_sample)) = 2
   \<and> cue_start (cues (parseLRC lrc_sample) ! 0) = Fin 1000
   \<and> cue_end (cues (parseLRC lrc_sample) ! 0) = Fin 2500
   \<and> cue_start (cues (parseLRC lrc_sample) ! 1) = Fin 2500
   \<and> cue_end (last (cues (parseLRC lrc_sample))) = Fin 5500"
proof -
  have l: "length (cues (parseLRC lrc_sample)) = 2" by code_simp
  have s0: "cue_start (cues (parseLRC lrc_sample) ! 0) = Fin 1000" by code_simp
  have s1: "cue_start (cues (parseLRC lrc_sample) ! 1) = Fin 2500" by code_simp
  have sl: "cue_start (last (cues (parseLRC lrc_sample))) = Fin 2500" by code_simp
  have n: "cues (parseLRC lrc_sample) \<noteq> []" using l by auto
  from C7_lrc_end_times [of lrc_sample] l
  have "cue_end (cues (parseLRC lrc_sample) ! 0) = cue_start (cues (parseLRC lrc_sample) ! Suc 0)" by simp
  then have e0: "cue_end (cues (parseLRC lrc_sample) ! 0) = Fin 2500" using s1 by simp
  from C7_lrc_end_times [of lrc_sample] n
  have "cue_end (last (cues (parseLRC lrc_sample))) = js_add (cue_start (last (cues (parseLRC lrc_sample)))) (Fin 3000)"
    by blast
  then have el: "cue_end (last (cues (parseLRC lrc_sample))) = Fin 5500"
    by (simp add: sl js_add_def)
  from l s0 e0 s1 el show ?thesis by simp
qed

text \<open>
  C8, as the code has it. For every \<open>p\<close> element, in document order: the start of its cue
  is the decoded \<open>begin\<close> attribute, or \<open>0\<close> when there is none; the end is the start plus
  the decoded \<open>dur\<close> when \<open>dur\<close> is present and not empty, else the decoded \<open>end\<close> when
  \<open>end\<close> is present and not empty, else the start plus 2000 ms.
\<close>

theorem C8_ttml_timing_amended:
  "length (cues (parseTTML dp content)) = length (getElementsByTagName (dp content) ''p'')
   \<and> (\<forall>i < length (getElementsByTagName (dp content) ''p'').
        cue_start (cues (parseTTML dp content) ! i) = ttml_start_spec (getElementsByTagName (dp content) ''p'' ! i)
      \<and> cue_end (cues (parseTTML dp content) ! i) = ttml_end_amended (getElementsByTagName (dp content) ''p'' ! i))"
  by (simp add: parseTTML_nth ttml_cue_start ttml_cue_end parseTTML_length)

theorem C8_ttml_timing_amended_witness:
  "length (getElementsByTagName ttml_sample ''p'') = 3
   \<and> cue_start (cues (parseTTML (\<lambda>_. ttml_sample) []) ! 0) = Fin 1000
   \<and> cue_end (cues (parseTTML (\<lambda>_. ttml_sample) []) ! 0) = Fin 1500
   \<and> cue_start (cues (parseTTML (\<lambda>_. ttml_sample) []) ! 1) = Fin 0
   \<and> cue_end (cues (parseTTML (\<lambda>_. ttml_sample) []) ! 1) = Fin 4000
   \<and> cue_start (cues (parseTTML (\<lambda>_. ttml_sample) []) ! 2) = Fin 5000
   \<and> cue_end (cues (parseTTML (\<lambda>_. ttml_sample) []) ! 2) = Fin 7000"
proof -
  let ?ps = "getElementsByTagName ttml_sample ''p''"
  have l: "length ?ps = 3" by code_simp
  have s: "ttml_start_spec (?ps ! 0) = Fin 1000" "ttml_start_spec (?ps ! 1) = Fin 0"
    "ttml_start_spec (?ps ! 2) = Fin 5000" by code_simp+
  have e: "ttml_end_amended (?ps ! 0) = Fin 1500" "ttml_end_amended (?ps ! 1) = Fin 4000"
    "ttml_end_amended (?ps ! 2) = Fin 7000" by code_simp+
  note c = C8_ttml_timing_amended [of "\<lambda>_. ttml_sample" "[]", THEN conjunct2, rule_format]
  from c [of 0] c [of 1] c [of 2] l s e show ?thesis by simp
qed

text \<open>
  C8 as stated reads "present" for \<open>dur\<close> and \<open>end\<close>. The code tests the attribute values
  for truthiness, so an attribute that is present with an empty value counts as absent:
  for \<open><p begin="1s" dur="">\<close> the end is \<open>1000 + 2000\<close>, where the claim gives
  \<open>1000 + timeToMs("") = 1000\<close>.
\<close>

theorem C8_ttml_timing_counterexample:
  "getElementsByTagName ttml_empty_dur ''p'' = [ElementNode ''p'' ''p'' [(''begin'', ''1s''), (''dur'', [])] []]
   \<and> getAttribute (getElementsByTagName ttml_empty_dur ''p'' ! 0) ''dur'' = Some []
   \<and> cue_start (cues (parseTTML (\<lambda>_. ttml_empty_dur) []) ! 0) = Fin 1000
   \<and> cue_end (cues (parseTTML (\<lambda>_. ttml_empty_dur) []) ! 0) = Fin 3000
   \<and> ttml_end_spec (getElementsByTagName ttml_empty_dur ''p'' ! 0) = Fin 1000
   \<and> cue_end (cues (parseTTML (\<lambda>_. ttml_empty_dur) []) ! 0)
       \<noteq> ttml_end_spec (getElementsByTagName ttml_empty_dur ''p'' ! 0)"
proof -
  have a: "getElementsByTagName ttml_empty_dur ''p'' = [ElementNode ''p'' ''p'' [(''begin'', ''1s''), (''dur'', [])] []]"
    by code_simp
  have b: "getAttribute (getElementsByTagName ttml_empty_dur ''p'' ! 0) ''dur'' = Some []" by code_simp
  have c: "cue_start (cues (parseTTML (\<lambda>_. ttml_empty_dur) []) ! 0) = Fin 1000" by code_simp
  have d: "cue_end (cues (parseTTML (\<lambda>_. ttml_empty_dur) []) ! 0) = Fin 3000" by code_simp
  have e: "ttml_end_spec (getElementsByTagName ttml_empty_dur ''p'' ! 0) = Fin 1000" by code_simp
  show ?thesis unfolding d e using a b c by simp
qed

text \<open>
  C10, as the code has it. In the enhanced LRC, the karaoke VTT and the karaoke TTML
  serializers a word whose start is absent or exactly \<open>0\<close> is written with the start of
  its cue: the output is what it is for the same cues with that start filled in, and the
  word is written with the time of the cue. In karaoke TTML a word end that is absent or
  \<open>0\<close> is the start the word is written with plus 300 ms. The times of a TTML span are
  offsets from the start of the cue.
\<close>

theorem C10_word_time_fallback_amended:
  "stringifyLRC (map fill_word_starts cs) True md = stringifyLRC cs True md
   \<and> stringifyVTT (map fill_word_starts cs) True md = stringifyVTT cs True md
   \<and> stringifyTTML (map fill_word_starts cs) True = stringifyTTML cs True
   \<and> stringifyTTML (map fill_word_ends cs) True = stringifyTTML cs True
   \<and> (word_start w = None \<or> word_start w = Some (Fin 0) \<longrightarrow>
        lrc_word_tag cue w = ''<'' @ msToLrc (cue_start cue) @ ''>'' @ word_text w
      \<and> vtt_word_tag cue w = ''<'' @ msToVtt (cue_start cue) @ ''>'' @ word_text w
      \<and> ttml_span cue w = ttml_span cue (w\<lparr>word_start := Some (cue_start cue)\<rparr>))
   \<and> (word_end w = None \<or> word_end w = Some (Fin 0) \<longrightarrow>
        ttml_span cue w
          = ttml_span cue (w\<lparr>word_end := Some (js_add (num_or (word_start w) (cue_start cue)) (Fin 300))\<rparr>))"
  using lrc_word_tag_fallback [of w cue] vtt_word_tag_fallback [of w cue]
    ttml_span_start_fallback [of w cue] ttml_span_end_fallback [of w cue]
  by (simp add: stringifyLRC_fill stringifyVTT_fill stringifyTTML_fill_starts stringifyTTML_fill_ends)

theorem C10_word_time_fallback_amended_witness:
  "(word_start late_word = None \<or> word_start late_word = Some (Fin 0))
   \<and> (word_end late_word = None \<or> word_end late_word = Some (Fin 0))
   \<and> cue_start late_cue = Fin 83450
   \<and> lrc_word_tag late_cue late_word = ''<01:23.45>hi''
   \<and> vtt_word_tag late_cue late_word = ''<00:01:23.450>hi''
   \<and> ttml_span late_cue late_word = ''<span begin=\"00:00:00.000\" end=\"00:00:00.300\">hi</span>''"
proof -
  have h: "word_start late_word = None \<or> word_start late_word = Some (Fin 0)"
    "word_end late_word = None \<or> word_end late_word = Some (Fin 0)"
    by (simp_all add: late_word_def)
  have f: "cue_start late_cue = Fin 83450" "word_text late_word = ''hi''"
    by (simp_all add: late_word_def late_cue_def)
  note c = C10_word_time_fallback_amended [where w = late_word and cue = late_cue and cs = "[]" and md = None]
  from c h have t: "lrc_word_tag late_cue late_word = ''<'' @ msToLrc (cue_start late_cue) @ ''>'' @ word_text late_word"
    "vtt_word_tag late_cue late_word = ''<'' @ msToVtt (cue_start late_cue) @ ''>'' @ word_text late_word"
    "ttml_span late_cue late_word = ttml_span late_cue (late_word\<lparr>word_start := Some (cue_start late_cue)\<rparr>)"
    by simp_all
  have e: "msToLrc (Fin 83450) = ''01:23.45''" "msToVtt (Fin 83450) = ''00:01:23.450''"
    by code_simp+
  have sp: "ttml_span late_cue (late_word\<lparr>word_start := Some (cue_start late_cue)\<rparr>)
      = ''<span begin=\"00:00:00.000\" end=\"00:00:00.300\">hi</span>''"
    by code_simp
  show ?thesis using h f t e sp by simp
qed

text \<open>
  C10 as stated concludes that a word time of \<open>0\<close> is never written as \<open>0\<close>. It is, whenever
  the cue itself starts at \<open>0\<close>: the word is written with the start of the cue, which is \<open>0\<close>.
\<close>

theorem C10_word_time_fallback_counterexample:
  "map word_start (words_of zero_cue) = [Some (Fin 0)]
   \<and> msToLrc (Fin 0) = ''00:00.00''
   \<and> stringifyLRC [zero_cue] True None = ''[00:00.00]<00:00.00>hi''
   \<and> msToVtt (Fin 0) = ''00:00:00.000''
   \<and> stringifyVTT [zero_cue] True None
       = ''WEBVTT'' @ [CHR 0x0A, CHR 0x0A] @ ''00:00:00.000 --> 00:00:01.000'' @ [CHR 0x0A] @ ''<00:00:00.000>hi'' @ [CHR 0x0A]"
proof (intro conjI)
  show "map word_start (words_of zero_cue) = [Some (Fin 0)]" by code_simp
  show "msToLrc (Fin 0) = ''00:00.00''" by code_simp
  show "stringifyLRC [zero_cue] True None = ''[00:00.00]<00:00.00>hi''" by code_simp
  show "msToVtt (Fin 0) = ''00:00:00.000''" by code_simp
  show "stringifyVTT [zero_cue] True None
       = ''WEBVTT'' @ [CHR 0x0A, CHR 0x0A] @ ''00:00:00.000 --> 00:00:01.000'' @ [CHR 0x0A] @ ''<00:00:00.000>hi'' @ [CHR 0x0A]"
    by code_simp
qed

text \<open>
  C5. On a text that is not JSON, that is, one on which \<open>JSON.parse\<close> throws,
  \<open>parseJSON\<close> (to which \<open>parseContent\<close> hands the content for the JSON tag) returns
  \<open>{ cues: [], metadata: {} }\<close>. No error leaves \<open>parseJSON\<close>: its \<open>catch\<close> clause has
  no condition, so the result is a value for every input.
\<close>

theorem C5_malformed_json:
  "JSON_parse content = Inl e \<Longrightarrow> parseJSON JSON_parse conv content = \<lparr>jr_cues = [], jr_metadata = JObj []\<rparr>"
  by (simp add: parseJSON_def bind_err_def empty_json_result_def)

theorem C5_malformed_json_witness:
  "sample_JSON_parse ''{oops'' = Inl SyntaxError
   \<and> parseJSON sample_JSON_parse (\<lambda>v. []) ''{oops'' = \<lparr>jr_cues = [], jr_metadata = JObj []\<rparr>"
proof -
  have p: "sample_JSON_parse ''{oops'' = Inl SyntaxError" by (simp add: sample_JSON_parse_def)
  from C5_malformed_json [where JSON_parse = sample_JSON_parse and content = "''{oops''" and e = SyntaxError
      and conv = "\<lambda>v. []"] p
  show ?thesis by simp
qed

end
